theory Spec2Isabelle
  imports Main "HOL-Library.Word" "HOL-Library.Monad_Syntax"
begin

unbundle bit_operations_syntax

section \<open>The kernel monitor of kern/monitor.c\<close>

text \<open>
  The monitor runs on a 32-bit x86 kernel: \<open>size_t\<close>, \<open>uint32_t\<close>, \<open>uintptr_t\<close> and
  \<open>pte_t\<close> are 32-bit unsigned words, whose arithmetic wraps around. The status a handler
  returns is a C \<open>int\<close> that only ever holds 0 or -1.
\<close>

type_synonym u32 = "32 word"

subsection \<open>Page-table entries (inc/mmu.h)\<close>

text \<open>
  Modelled from the spec: the header inc/mmu.h is not among the sources. A page-table
  entry is a word whose high bits hold the physical frame address and whose low bits hold
  the flags (global, large-page, dirty, accessed, cache-disable, write-through,
  user-accessible, writable, present); pages are 4096 bytes, so the flags are the low 12
  bits, with the bit values of the x86 page-table format.
\<close>

definition PGSIZE :: u32 where "PGSIZE = 4096"
definition PTE_P :: u32 where "PTE_P = 0x001"
definition PTE_W :: u32 where "PTE_W = 0x002"
definition PTE_U :: u32 where "PTE_U = 0x004"
definition PTE_PWT :: u32 where "PTE_PWT = 0x008"
definition PTE_PCD :: u32 where "PTE_PCD = 0x010"
definition PTE_A :: u32 where "PTE_A = 0x020"
definition PTE_D :: u32 where "PTE_D = 0x040"
definition PTE_PS :: u32 where "PTE_PS = 0x080"
definition PTE_G :: u32 where "PTE_G = 0x100"

definition PTE_ADDR :: "u32 \<Rightarrow> u32" where
  "PTE_ADDR pte = pte AND NOT 0xFFF"

definition PTE_FLAGS :: "u32 \<Rightarrow> u32" where
  "PTE_FLAGS pte = pte AND 0xFFF"

definition PGNUM :: "u32 \<Rightarrow> u32" where
  "PGNUM la = drop_bit 12 la"

definition ROUNDDOWN :: "u32 \<Rightarrow> u32 \<Rightarrow> u32" where
  "ROUNDDOWN a n = a - a mod n"

subsection \<open>The paused execution context and symbol information\<close>

text \<open>
  Modelled from the spec: struct Trapframe (inc/trap.h) is not among the sources. It is a
  snapshot of the register file, the instruction pointer, the stack pointer, the flags word
  and the number of the trap that caused the pause. The monitor touches \<open>tf_trapno\<close>,
  \<open>tf_eip\<close> and \<open>tf_eflags\<close> only.
\<close>

record Trapframe =
  tf_regs :: "u32 list"
  tf_trapno :: u32
  tf_eip :: u32
  tf_eflags :: u32
  tf_esp :: u32

text \<open>struct Eipdebuginfo (kern/kdebug.h): the fields the monitor prints.\<close>

record Eipdebuginfo =
  eip_file :: string
  eip_line :: int
  eip_fn_name :: string
  eip_fn_namelen :: int
  eip_fn_addr :: u32

subsection \<open>The collaborators of the monitor\<close>

text \<open>
  What monitor.c takes from the rest of the kernel and never defines. The constants
  \<open>KERNBASE\<close> (inc/memlayout.h), \<open>T_BRKPT\<close>, \<open>T_DEBUG\<close> (inc/trap.h) and \<open>FL_TF\<close>
  (inc/mmu.h), the numeric parser \<open>strtol\<close> (its result as assigned to a \<open>size_t\<close>), the
  physical-to-virtual translation \<open>KADDR\<close> (\<open>None\<close>: the translation panics), the
  contents of memory (\<open>load a\<close> is the 32-bit word at virtual address \<open>a\<close>, \<open>None\<close>
  when the access faults), the frame-pointer register, the symbol resolver and the
  linker symbols are parameters of the model.
\<close>

record kern =
  KERNBASE :: u32
  T_BRKPT :: u32
  T_DEBUG :: u32
  FL_TF :: u32
  strtol :: "string \<Rightarrow> u32"
  KADDR :: "u32 \<Rightarrow> u32 option"
  load :: "u32 \<Rightarrow> u32 option"
  read_ebp :: u32
  debuginfo_eip :: "u32 \<Rightarrow> Eipdebuginfo"
  sym_start :: u32
  sym_entry :: u32
  sym_etext :: u32
  sym_edata :: u32
  sym_end :: u32

subsection \<open>Console output\<close>

text \<open>
  Every \<open>cprintf\<close> call of monitor.c is one event, holding the arguments of the call in
  the order of the format string. \<open>Prompt\<close> is the prompt \<open>readline\<close> prints,
  \<open>TrapframeDump\<close> the output of \<open>print_trapframe\<close>.
\<close>

datatype out =
    Prompt
  | Welcome
  | TypeHelp
  | TrapframeDump Trapframe
  | HelpLine string string
  | KerninfoHeader
  | KerninfoStart u32
  | KerninfoSym string u32 u32
  | KerninfoFootprint int
  | BacktraceHeader
  | FrameLine u32 u32 u32 u32 u32 u32 u32
  | SymLine string int int string u32
  | MapInvalid u32 u32
  | SetInvalid u32
  | PageRow u32 u32 string u32
  | DumpLine u32 u32 u32 u32 u32
  | InvalidTrapframe
  | StepLine u32 string int int string u32
  | TooManyArguments nat
  | UnknownCommand string

subsection \<open>Kernel state and handler outcomes\<close>

text \<open>
  The state the monitor reads and writes: the trap frame \<open>tf\<close> points to (\<open>None\<close> when
  \<open>tf\<close> is \<open>NULL\<close>), the page table of \<open>kern_pgdir\<close> (the entry of each page number that
  has one), and the console.
\<close>

record kstate =
  trapframe :: "Trapframe option"
  pgtab :: "u32 \<rightharpoonup> u32"
  console :: "out list"

text \<open>
  An argument-vector slot of \<open>runcmd\<close>: never written, the null pointer, or a pointer to
  a token of the line.
\<close>

datatype slot = Unset | Null | Ptr string

text \<open>
  A handler returns a status, or hands the processor to \<open>env_run\<close> (which does not
  return), or the kernel crashes: the numeric parser was given a null or unset pointer,
  or a memory access faulted.
\<close>

datatype fault = NullArgument | UnsetArgument | BadAccess

datatype outcome = Return int | EnvRun | Fault fault

definition cprintf :: "out \<Rightarrow> kstate \<Rightarrow> kstate" where
  "cprintf x s = s\<lparr>console := console s @ [x]\<rparr>"

definition argv_at :: "slot list \<Rightarrow> nat \<Rightarrow> slot" where
  "argv_at argv i = (if i < length argv then argv ! i else Unset)"

text \<open>\<open>strtol(argv[i], NULL, 0)\<close>, the result assigned to a \<open>size_t\<close>.\<close>

definition strtol_arg :: "kern \<Rightarrow> slot list \<Rightarrow> nat \<Rightarrow> fault + u32" where
  "strtol_arg e argv i =
     (case argv_at argv i of
        Ptr str \<Rightarrow> Inr (strtol e str)
      | Null \<Rightarrow> Inl NullArgument
      | Unset \<Rightarrow> Inl UnsetArgument)"

subsection \<open>The page-table walker\<close>

text \<open>
  Modelled from the spec: \<open>pgdir_walk\<close> (kern/pmap.c) is not among the sources. Called
  with \<open>create = true\<close>, as the monitor always does, it resolves the entry for an address
  and creates it if missing. The pointer it returns is modelled by the page number; a
  created entry is empty.
\<close>

definition pgdir_walk :: "(u32 \<rightharpoonup> u32) \<Rightarrow> u32 \<Rightarrow> u32 \<times> (u32 \<rightharpoonup> u32)" where
  "pgdir_walk pt va =
     (PGNUM va, case pt (PGNUM va) of None \<Rightarrow> pt(PGNUM va \<mapsto> 0) | Some _ \<Rightarrow> pt)"

subsection \<open>map and set\<close>

text \<open>The nine assignments \<open>status[0..8]\<close> over the initial \<open>"---------"\<close>.\<close>

definition flag_char :: "u32 \<Rightarrow> u32 \<Rightarrow> char \<Rightarrow> char" where
  "flag_char pte b c = (if pte AND b \<noteq> 0 then c else CHR ''-'')"

definition render_status :: "u32 \<Rightarrow> string" where
  "render_status pte =
     (''---------'')
       [0 := flag_char pte PTE_G (CHR ''G''),
        1 := flag_char pte PTE_PS (CHR ''S''),
        2 := flag_char pte PTE_D (CHR ''D''),
        3 := flag_char pte PTE_A (CHR ''A''),
        4 := flag_char pte PTE_PCD (CHR ''C''),
        5 := flag_char pte PTE_PWT (CHR ''T''),
        6 := flag_char pte PTE_U (CHR ''U''),
        7 := flag_char pte PTE_W (CHR ''W''),
        8 := flag_char pte PTE_P (CHR ''P'')]"

text \<open>
  The loop of \<open>mon_map\<close>: \<open>for (i = start; i < end; i += PGSIZE)\<close>. The addition wraps
  around, so the loop need not end; \<open>None\<close> is the loop that runs forever.
\<close>

partial_function (option) map_loop :: "u32 \<Rightarrow> u32 \<Rightarrow> kstate \<Rightarrow> (outcome \<times> kstate) option" where
  "map_loop end i s =
     (if i < end then
        (case pgdir_walk (pgtab s) i of (k, pt) \<Rightarrow>
           (case pt k of
              None \<Rightarrow> Some (Fault BadAccess, s\<lparr>pgtab := pt\<rparr>)
            | Some pte \<Rightarrow>
                map_loop end (i + PGSIZE)
                  (cprintf (PageRow (PGNUM i) (PGNUM i + 1) (render_status pte) (PGNUM pte))
                     (s\<lparr>pgtab := pt\<rparr>))))
      else Some (Return 0, s))"

definition mon_map :: "kern \<Rightarrow> nat \<Rightarrow> slot list \<Rightarrow> kstate \<Rightarrow> (outcome \<times> kstate) option" where
  "mon_map e argc argv s =
     (case strtol_arg e argv 1 of
        Inl f \<Rightarrow> Some (Fault f, s)
      | Inr start \<Rightarrow>
          (case strtol_arg e argv 2 of
             Inl f \<Rightarrow> Some (Fault f, s)
           | Inr end \<Rightarrow>
               if start < 0 \<or> start > end
               then Some (Return 0, cprintf (MapInvalid start end) s)
               else map_loop end (ROUNDDOWN start PGSIZE) s))"

definition mon_set :: "kern \<Rightarrow> nat \<Rightarrow> slot list \<Rightarrow> kstate \<Rightarrow> outcome \<times> kstate" where
  "mon_set e argc argv s =
     (case strtol_arg e argv 1 of
        Inl f \<Rightarrow> (Fault f, s)
      | Inr page0 \<Rightarrow>
          (case strtol_arg e argv 2 of
             Inl f \<Rightarrow> (Fault f, s)
           | Inr flag \<Rightarrow>
               if page0 < 0 \<or> page0 > KERNBASE e
               then (Return 0, cprintf (SetInvalid page0) s)
               else
                 (let page = ROUNDDOWN page0 PGSIZE in
                  case pgdir_walk (pgtab s) page of (k, pt) \<Rightarrow>
                    (case pt k of
                       None \<Rightarrow> (Fault BadAccess, s\<lparr>pgtab := pt\<rparr>)
                     | Some old \<Rightarrow>
                         (let pte = PTE_ADDR old OR flag in
                          (Return 0,
                           cprintf (PageRow (PGNUM page) (PGNUM page + 1) (render_status pte) (PGNUM pte))
                             (s\<lparr>pgtab := pt(k \<mapsto> pte)\<rparr>)))))))"

subsection \<open>xp and xv\<close>

text \<open>
  The four words of one line: the arguments \<open>*((uint32_t*)(start + 4 * j))\<close> of the
  \<open>cprintf\<close> call of \<open>mon_xv\<close>, and \<open>*((uint32_t*)KADDR(start + 4 * j))\<close> of \<open>mon_xp\<close>.
  The line is printed only if all four are read.
\<close>

definition xv_words :: "kern \<Rightarrow> u32 \<Rightarrow> (u32 \<times> u32 \<times> u32 \<times> u32) option" where
  "xv_words e start =
     do {
       w0 \<leftarrow> load e start;
       w1 \<leftarrow> load e (start + 4);
       w2 \<leftarrow> load e (start + 8);
       w3 \<leftarrow> load e (start + 12);
       Some (w0, w1, w2, w3)
     }"

definition load_phys :: "kern \<Rightarrow> u32 \<Rightarrow> u32 option" where
  "load_phys e pa = do { va \<leftarrow> KADDR e pa; load e va }"

definition xp_words :: "kern \<Rightarrow> u32 \<Rightarrow> (u32 \<times> u32 \<times> u32 \<times> u32) option" where
  "xp_words e start =
     do {
       w0 \<leftarrow> load_phys e start;
       w1 \<leftarrow> load_phys e (start + 4);
       w2 \<leftarrow> load_phys e (start + 8);
       w3 \<leftarrow> load_phys e (start + 12);
       Some (w0, w1, w2, w3)
     }"

text \<open>
  \<open>for (i = 0; i < length; i += 4, start += 16)\<close>: both additions wrap around, and the
  loop runs forever when \<open>i\<close> wraps before reaching \<open>length\<close> (\<open>None\<close>).
\<close>

partial_function (option) xv_loop ::
  "kern \<Rightarrow> u32 \<Rightarrow> u32 \<Rightarrow> u32 \<Rightarrow> kstate \<Rightarrow> (outcome \<times> kstate) option" where
  "xv_loop e len i start s =
     (if i < len then
        (case xv_words e start of
           None \<Rightarrow> Some (Fault BadAccess, s)
         | Some (w0, w1, w2, w3) \<Rightarrow>
             xv_loop e len (i + 4) (start + 16) (cprintf (DumpLine start w0 w1 w2 w3) s))
      else Some (Return 0, s))"

partial_function (option) xp_loop ::
  "kern \<Rightarrow> u32 \<Rightarrow> u32 \<Rightarrow> u32 \<Rightarrow> kstate \<Rightarrow> (outcome \<times> kstate) option" where
  "xp_loop e len i start s =
     (if i < len then
        (case xp_words e start of
           None \<Rightarrow> Some (Fault BadAccess, s)
         | Some (w0, w1, w2, w3) \<Rightarrow>
             xp_loop e len (i + 4) (start + 16) (cprintf (DumpLine start w0 w1 w2 w3) s))
      else Some (Return 0, s))"

definition mon_xp :: "kern \<Rightarrow> nat \<Rightarrow> slot list \<Rightarrow> kstate \<Rightarrow> (outcome \<times> kstate) option" where
  "mon_xp e argc argv s =
     (case strtol_arg e argv 1 of
        Inl f \<Rightarrow> Some (Fault f, s)
      | Inr start \<Rightarrow>
          (case strtol_arg e argv 2 of
             Inl f \<Rightarrow> Some (Fault f, s)
           | Inr len \<Rightarrow> xp_loop e len 0 start s))"

definition mon_xv :: "kern \<Rightarrow> nat \<Rightarrow> slot list \<Rightarrow> kstate \<Rightarrow> (outcome \<times> kstate) option" where
  "mon_xv e argc argv s =
     (case strtol_arg e argv 1 of
        Inl f \<Rightarrow> Some (Fault f, s)
      | Inr start \<Rightarrow>
          (case strtol_arg e argv 2 of
             Inl f \<Rightarrow> Some (Fault f, s)
           | Inr len \<Rightarrow> xv_loop e len 0 start s))"

subsection \<open>backtrace\<close>

text \<open>\<open>cur[1]\<close> to \<open>cur[6]\<close>: the return address and the five argument words.\<close>

definition frame_words :: "kern \<Rightarrow> u32 \<Rightarrow> (u32 \<times> u32 \<times> u32 \<times> u32 \<times> u32 \<times> u32) option" where
  "frame_words e cur =
     do {
       eip \<leftarrow> load e (cur + 4);
       a1 \<leftarrow> load e (cur + 8);
       a2 \<leftarrow> load e (cur + 12);
       a3 \<leftarrow> load e (cur + 16);
       a4 \<leftarrow> load e (cur + 20);
       a5 \<leftarrow> load e (cur + 24);
       Some (eip, a1, a2, a3, a4, a5)
     }"

definition sym_line :: "kern \<Rightarrow> u32 \<Rightarrow> out" where
  "sym_line e eip =
     (let info = debuginfo_eip e eip in
      SymLine (eip_file info) (eip_line info) (eip_fn_namelen info) (eip_fn_name info)
        (eip - eip_fn_addr info))"

text \<open>
  The \<open>do ... while (cur)\<close> loop. No depth is enforced: on a cyclic chain of frame
  pointers the loop runs forever (\<open>None\<close>).
\<close>

partial_function (option) backtrace_loop ::
  "kern \<Rightarrow> u32 \<Rightarrow> kstate \<Rightarrow> (outcome \<times> kstate) option" where
  "backtrace_loop e cur s =
     (case frame_words e cur of
        None \<Rightarrow> Some (Fault BadAccess, s)
      | Some (eip, a1, a2, a3, a4, a5) \<Rightarrow>
          (let s' = cprintf (sym_line e eip) (cprintf (FrameLine cur eip a1 a2 a3 a4 a5) s) in
           case load e cur of
             None \<Rightarrow> Some (Fault BadAccess, s')
           | Some next \<Rightarrow> if next \<noteq> 0 then backtrace_loop e next s' else Some (Return 0, s')))"

definition mon_backtrace :: "kern \<Rightarrow> nat \<Rightarrow> slot list \<Rightarrow> kstate \<Rightarrow> (outcome \<times> kstate) option" where
  "mon_backtrace e argc argv s = backtrace_loop e (read_ebp e) (cprintf BacktraceHeader s)"

subsection \<open>c and si\<close>

definition mon_c :: "kern \<Rightarrow> nat \<Rightarrow> slot list \<Rightarrow> kstate \<Rightarrow> outcome \<times> kstate" where
  "mon_c e argc argv s =
     (case trapframe s of
        None \<Rightarrow> (Return (- 1), cprintf InvalidTrapframe s)
      | Some tf \<Rightarrow>
          if tf_trapno tf \<noteq> T_BRKPT e \<and> tf_trapno tf \<noteq> T_DEBUG e
          then (Return (- 1), cprintf InvalidTrapframe s)
          else (EnvRun, s\<lparr>trapframe := Some (tf\<lparr>tf_eflags := tf_eflags tf AND NOT (FL_TF e)\<rparr>)\<rparr>))"

definition step_line :: "kern \<Rightarrow> u32 \<Rightarrow> out" where
  "step_line e eip =
     (let info = debuginfo_eip e eip in
      StepLine eip (eip_file info) (eip_line info) (eip_fn_namelen info) (eip_fn_name info)
        (eip - eip_fn_addr info))"

definition mon_si :: "kern \<Rightarrow> nat \<Rightarrow> slot list \<Rightarrow> kstate \<Rightarrow> outcome \<times> kstate" where
  "mon_si e argc argv s =
     (case trapframe s of
        None \<Rightarrow> (Return (- 1), cprintf InvalidTrapframe s)
      | Some tf \<Rightarrow>
          if tf_trapno tf \<noteq> T_BRKPT e \<and> tf_trapno tf \<noteq> T_DEBUG e
          then (Return (- 1), cprintf InvalidTrapframe s)
          else
            (EnvRun,
             (cprintf (step_line e (tf_eip tf)) s)
               \<lparr>trapframe := Some (tf\<lparr>tf_eflags := tf_eflags tf OR FL_TF e\<rparr>)\<rparr>))"

subsection \<open>The command table, help and kerninfo\<close>

text \<open>
  The handlers of the table are function pointers; the model names each by a tag, and
  \<open>call\<close> below invokes the handler a tag stands for.
\<close>

datatype cmd = Help | Kerninfo | Backtrace | Map | Set | Xp | Xv | C | Si

definition commands :: "(string \<times> string \<times> cmd) list" where
  "commands =
     [(''help'', ''Display this list of commands'', Help),
      (''kerninfo'', ''Display information about the kernel'', Kerninfo),
      (''backtrace'', ''Display stack'', Backtrace),
      (''map'', ''Display mapping'', Map),
      (''set'', ''Set mapping'', Set),
      (''xp'', ''Dump physical memory'', Xp),
      (''xv'', ''Dump virtual memory'', Xv),
      (''c'', ''Continue process'', C),
      (''si'', ''Step'', Si)]"

definition mon_help :: "kern \<Rightarrow> nat \<Rightarrow> slot list \<Rightarrow> kstate \<Rightarrow> outcome \<times> kstate" where
  "mon_help e argc argv s =
     (Return 0, foldl (\<lambda>s' (name, desc, f). cprintf (HelpLine name desc) s') s commands)"

text \<open>
  \<open>ROUNDUP(end - entry, 1024) / 1024\<close>: the rounding is done on \<open>uint32_t\<close>, the result
  is cast back to the signed type of the pointer difference, and the division truncates.
\<close>

definition ROUNDUP :: "u32 \<Rightarrow> u32 \<Rightarrow> u32" where
  "ROUNDUP a n = ROUNDDOWN (a + n - 1) n"

definition c_div :: "int \<Rightarrow> int \<Rightarrow> int" where
  "c_div a b = sgn a * sgn b * (\<bar>a\<bar> div \<bar>b\<bar>)"

definition mon_kerninfo :: "kern \<Rightarrow> nat \<Rightarrow> slot list \<Rightarrow> kstate \<Rightarrow> outcome \<times> kstate" where
  "mon_kerninfo e argc argv s =
     (Return 0,
      cprintf (KerninfoFootprint (c_div (sint (ROUNDUP (sym_end e - sym_entry e) 1024)) 1024))
        (cprintf (KerninfoSym ''end'' (sym_end e) (sym_end e - KERNBASE e))
          (cprintf (KerninfoSym ''edata'' (sym_edata e) (sym_edata e - KERNBASE e))
            (cprintf (KerninfoSym ''etext'' (sym_etext e) (sym_etext e - KERNBASE e))
              (cprintf (KerninfoSym ''entry'' (sym_entry e) (sym_entry e - KERNBASE e))
                (cprintf (KerninfoStart (sym_start e))
                  (cprintf KerninfoHeader s)))))))"

fun call :: "cmd \<Rightarrow> kern \<Rightarrow> nat \<Rightarrow> slot list \<Rightarrow> kstate \<Rightarrow> (outcome \<times> kstate) option" where
  "call Help e argc argv s = Some (mon_help e argc argv s)"
| "call Kerninfo e argc argv s = Some (mon_kerninfo e argc argv s)"
| "call Backtrace e argc argv s = mon_backtrace e argc argv s"
| "call Map e argc argv s = mon_map e argc argv s"
| "call Set e argc argv s = Some (mon_set e argc argv s)"
| "call Xp e argc argv s = mon_xp e argc argv s"
| "call Xv e argc argv s = mon_xv e argc argv s"
| "call C e argc argv s = Some (mon_c e argc argv s)"
| "call Si e argc argv s = Some (mon_si e argc argv s)"

subsection \<open>The command interpreter\<close>

text \<open>
  The line buffer is the list of its characters up to the terminating null, which the
  list leaves out: \<open>*buf\<close> is the head of the list, and null at its end.
\<close>

definition MAXARGS :: nat where "MAXARGS = 16"

definition NUL :: char where "NUL = CHR 0x00"

definition WHITESPACE :: string where
  "WHITESPACE = [CHR 0x09, CHR 0x0D, CHR 0x0A, CHR '' '']"

definition strchr :: "string \<Rightarrow> char \<Rightarrow> bool" where
  "strchr str c = (c \<in> set str)"

definition peek :: "string \<Rightarrow> char" where
  "peek buf = (case buf of [] \<Rightarrow> NUL | c # _ \<Rightarrow> c)"

text \<open>\<open>while (*buf && strchr(WHITESPACE, *buf)) *buf++ = 0;\<close>\<close>

fun gobble :: "string \<Rightarrow> string" where
  "gobble [] = []"
| "gobble (c # cs) = (if c \<noteq> NUL \<and> strchr WHITESPACE c then gobble cs else c # cs)"

text \<open>\<open>while (*buf && !strchr(WHITESPACE, *buf)) buf++;\<close>\<close>

fun scan_arg :: "string \<Rightarrow> string" where
  "scan_arg [] = []"
| "scan_arg (c # cs) = (if c \<noteq> NUL \<and> \<not> strchr WHITESPACE c then scan_arg cs else c # cs)"

text \<open>
  The string a saved pointer \<open>argv[i] = buf\<close> denotes once the line is tokenized: the
  characters up to the first null, and the white space after the token has been
  overwritten with nulls by then.
\<close>

fun arg_text :: "string \<Rightarrow> string" where
  "arg_text [] = []"
| "arg_text (c # cs) = (if c \<noteq> NUL \<and> \<not> strchr WHITESPACE c then c # arg_text cs else [])"

lemma length_gobble: "length (gobble buf) \<le> length buf"
  by (induction buf) auto

lemma length_scan_arg: "length (scan_arg buf) \<le> length buf"
  by (induction buf) auto

lemma peek_gobble: "peek (gobble buf) \<noteq> NUL \<Longrightarrow> \<not> strchr WHITESPACE (peek (gobble buf))"
  by (induction buf) (auto simp: peek_def)

lemma scan_arg_shorter:
  "peek buf \<noteq> NUL \<Longrightarrow> \<not> strchr WHITESPACE (peek buf) \<Longrightarrow> length (scan_arg buf) < length buf"
  using length_scan_arg [of "tl buf"] by (cases buf) (auto simp: peek_def)

text \<open>
  The \<open>while (1)\<close> loop of \<open>runcmd\<close>; \<open>None\<close> is the return on too many arguments.
\<close>

function parse_args :: "nat \<Rightarrow> slot list \<Rightarrow> string \<Rightarrow> (nat \<times> slot list) option" where
  "parse_args argc argv buf =
     (let buf1 = gobble buf in
      if peek buf1 = NUL then Some (argc, argv)
      else if argc = MAXARGS - 1 then None
      else parse_args (argc + 1) (argv[argc := Ptr (arg_text buf1)]) (scan_arg buf1))"
  by pat_completeness auto
termination
proof (relation "measure (\<lambda>(argc, argv, buf). length buf)")
  show "wf (measure (\<lambda>(argc, argv, buf). length buf))" by simp
next
  fix argc :: nat and argv :: "slot list" and buf buf1 :: string
  assume "buf1 = gobble buf" and "peek buf1 \<noteq> NUL"
  then have "length (scan_arg buf1) < length buf1"
    using peek_gobble [of buf] scan_arg_shorter [of buf1] by simp
  with \<open>buf1 = gobble buf\<close> have "length (scan_arg buf1) < length buf"
    using length_gobble [of buf] by simp
  then show "((argc + 1, argv[argc := Ptr (arg_text buf1)], scan_arg buf1), (argc, argv, buf))
      \<in> measure (\<lambda>(argc, argv, buf). length buf)"
    by simp
qed

declare parse_args.simps [simp del]

text \<open>
  The lookup loop: the first command whose name equals \<open>argv[0]\<close> (\<open>strcmp\<close> returns 0)
  is invoked; when there is none, the command is unknown.
\<close>

fun lookup :: "(string \<times> string \<times> cmd) list \<Rightarrow> string \<Rightarrow> kern \<Rightarrow> nat \<Rightarrow> slot list \<Rightarrow> kstate \<Rightarrow>
    (outcome \<times> kstate) option" where
  "lookup [] name e argc argv s = Some (Return 0, cprintf (UnknownCommand name) s)"
| "lookup ((n, d, f) # cs) name e argc argv s =
     (if name = n then call f e argc argv s else lookup cs name e argc argv s)"

definition runcmd :: "kern \<Rightarrow> string \<Rightarrow> kstate \<Rightarrow> (outcome \<times> kstate) option" where
  "runcmd e buf s =
     (case parse_args 0 ((replicate MAXARGS Unset)[0 := Null]) buf of
        None \<Rightarrow> Some (Return 0, cprintf (TooManyArguments MAXARGS) s)
      | Some (argc, argv0) \<Rightarrow>
          (let argv = argv0[argc := Null] in
           if argc = 0 then Some (Return 0, s)
           else
             (case argv_at argv 0 of
                Ptr name \<Rightarrow> lookup commands name e argc argv s
              | Null \<Rightarrow> Some (Fault NullArgument, s)
              | Unset \<Rightarrow> Some (Fault UnsetArgument, s))))"

subsection \<open>The monitor loop\<close>

text \<open>
  The lines \<open>readline\<close> returns, in order, are the input of the loop; \<open>None\<close> is a call
  that returns \<open>NULL\<close>. The loop ends when a handler breaks it (\<open>Terminated\<close>), leaves for
  \<open>env_run\<close> (\<open>Resumed\<close>) or crashes (\<open>Crashed\<close>); with the given lines used up it is
  blocked in \<open>readline\<close>, the prompt printed (\<open>AwaitingLine\<close>). The lines not read are
  returned with the state.
\<close>

datatype run = Terminated | Resumed | Crashed fault | AwaitingLine

fun monitor_loop :: "kern \<Rightarrow> string option list \<Rightarrow> kstate \<Rightarrow> (run \<times> string option list \<times> kstate) option" where
  "monitor_loop e [] s = Some (AwaitingLine, [], cprintf Prompt s)"
| "monitor_loop e (None # lines) s = monitor_loop e lines (cprintf Prompt s)"
| "monitor_loop e (Some buf # lines) s =
     (case runcmd e buf (cprintf Prompt s) of
        None \<Rightarrow> None
      | Some (Return r, s') \<Rightarrow> if r < 0 then Some (Terminated, lines, s') else monitor_loop e lines s'
      | Some (EnvRun, s') \<Rightarrow> Some (Resumed, lines, s')
      | Some (Fault f, s') \<Rightarrow> Some (Crashed f, lines, s'))"

definition monitor :: "kern \<Rightarrow> string option list \<Rightarrow> kstate \<Rightarrow> (run \<times> string option list \<times> kstate) option" where
  "monitor e lines s =
     (let s1 = cprintf TypeHelp (cprintf Welcome s);
          s2 = (case trapframe s1 of None \<Rightarrow> s1 | Some tf \<Rightarrow> cprintf (TrapframeDump tf) s1)
      in monitor_loop e lines s2)"

subsection \<open>The tokens of a line\<close>

text \<open>
  What the interpreter is to compute, stated without its loops: the tokens of a line are
  its maximal runs of characters that are not white space, in order, up to the first null.
  \<open>split_line w buf\<close> reads the line character by character, \<open>w\<close> being the token read
  so far.
\<close>

definition close_word :: "string \<Rightarrow> string list" where
  "close_word w = (if w = [] then [] else [w])"

fun split_line :: "string \<Rightarrow> string \<Rightarrow> string list" where
  "split_line w [] = close_word w"
| "split_line w (c # cs) =
     (if c = NUL then close_word w
      else if c \<in> set WHITESPACE then close_word w @ split_line [] cs
      else split_line (w @ [c]) cs)"

definition tokens_of :: "string \<Rightarrow> string list" where
  "tokens_of buf = split_line [] buf"

text \<open>
  The argument vector of a line with the tokens \<open>toks\<close>: the 16 slots of \<open>argv\<close>, slot 0
  set to null before the loop, one pointer stored per token, and the null stored after
  the last token.
\<close>

fun store_args :: "nat \<Rightarrow> string list \<Rightarrow> slot list \<Rightarrow> slot list" where
  "store_args argc [] argv = argv"
| "store_args argc (t # ts) argv = store_args (argc + 1) ts (argv[argc := Ptr t])"

definition argv_of :: "string list \<Rightarrow> slot list" where
  "argv_of toks = (store_args 0 toks ((replicate MAXARGS Unset)[0 := Null]))[length toks := Null]"

subsection \<open>What the commands are to print\<close>

text \<open>
  The entry the walker resolves for an address: the entry stored for its page, or the
  empty entry created for it. \<open>set_result\<close> is the state after an accepted \<open>set\<close>.
\<close>

definition resolved_entry :: "(u32 \<rightharpoonup> u32) \<Rightarrow> u32 \<Rightarrow> u32" where
  "resolved_entry pt va = (case pt (PGNUM va) of None \<Rightarrow> 0 | Some pte \<Rightarrow> pte)"

definition set_result :: "kstate \<Rightarrow> u32 \<Rightarrow> u32 \<Rightarrow> kstate" where
  "set_result s page flag =
     (let pte = PTE_ADDR (resolved_entry (pgtab s) page) OR flag in
      cprintf (PageRow (PGNUM page) (PGNUM page + 1) (render_status pte) (PGNUM pte))
        (s\<lparr>pgtab := (pgtab s)(PGNUM page \<mapsto> pte)\<rparr>))"

text \<open>
  What one iteration of the loop of \<open>map\<close> does for the page address \<open>va\<close>, and the
  page addresses from \<open>pg\<close> in steps of the page size that lie below \<open>end\<close>.
\<close>

definition map_page :: "kstate \<Rightarrow> u32 \<Rightarrow> kstate" where
  "map_page s va =
     (let pte = resolved_entry (pgtab s) va in
      cprintf (PageRow (PGNUM va) (PGNUM va + 1) (render_status pte) (PGNUM pte))
        (s\<lparr>pgtab := (pgtab s)(PGNUM va \<mapsto> pte)\<rparr>))"

definition page_count :: "u32 \<Rightarrow> u32 \<Rightarrow> nat" where
  "page_count pg end = (unat end - unat pg + 4095) div 4096"

definition map_pages :: "u32 \<Rightarrow> u32 \<Rightarrow> u32 list" where
  "map_pages pg end = map (\<lambda>j. pg + PGSIZE * of_nat j) [0 ..< page_count pg end]"

text \<open>
  The lines of a memory dump, \<open>w k\<close> being the \<open>k\<close>-th word from the start address: line
  \<open>j\<close> shows the address \<open>start + 16 * j\<close> and the words \<open>4 * j\<close> to \<open>4 * j + 3\<close>; a dump
  of \<open>len\<close> words has \<open>len\<close> divided by four, rounded up, lines.
\<close>

definition dump_line :: "(nat \<Rightarrow> u32) \<Rightarrow> u32 \<Rightarrow> nat \<Rightarrow> out" where
  "dump_line w start j =
     DumpLine (start + 16 * of_nat j) (w (4 * j)) (w (4 * j + 1)) (w (4 * j + 2)) (w (4 * j + 3))"

definition dump_lines :: "u32 \<Rightarrow> nat" where
  "dump_lines len = (unat len + 3) div 4"

fun words_of_out :: "out \<Rightarrow> u32 list" where
  "words_of_out (DumpLine a w0 w1 w2 w3) = [w0, w1, w2, w3]"
| "words_of_out _ = []"

text \<open>
  A chain of stack frames in memory. A frame is its frame pointer, the return address
  stored one word above it and the five words above that; the word at the frame pointer
  links to the next frame, and is zero in the last frame.
\<close>

type_synonym frame = "u32 \<times> u32 \<times> u32 \<times> u32 \<times> u32 \<times> u32 \<times> u32"

definition frame_at :: "kern \<Rightarrow> frame \<Rightarrow> u32 \<Rightarrow> bool" where
  "frame_at e f link =
     (case f of (fp, eip, a1, a2, a3, a4, a5) \<Rightarrow>
        load e fp = Some link \<and> load e (fp + 4) = Some eip \<and>
        load e (fp + 8) = Some a1 \<and> load e (fp + 12) = Some a2 \<and> load e (fp + 16) = Some a3 \<and>
        load e (fp + 20) = Some a4 \<and> load e (fp + 24) = Some a5)"

fun frame_chain :: "kern \<Rightarrow> frame list \<Rightarrow> bool" where
  "frame_chain e [] = False"
| "frame_chain e [f] = frame_at e f 0"
| "frame_chain e (f # g # fs) = (frame_at e f (fst g) \<and> fst g \<noteq> 0 \<and> frame_chain e (g # fs))"

text \<open>
  The record of a frame: the line of the frame, then the line of the symbol information
  the resolver gives for the return address (file, line, length of the function name,
  function name, and the offset of the return address from the start of the function).
\<close>

definition frame_record :: "kern \<Rightarrow> frame \<Rightarrow> out list" where
  "frame_record e f =
     (case f of (fp, eip, a1, a2, a3, a4, a5) \<Rightarrow>
        [FrameLine fp eip a1 a2 a3 a4 a5,
         SymLine (eip_file (debuginfo_eip e eip)) (eip_line (debuginfo_eip e eip))
           (eip_fn_namelen (debuginfo_eip e eip)) (eip_fn_name (debuginfo_eip e eip))
           (eip - eip_fn_addr (debuginfo_eip e eip))])"

fun is_frame_line :: "out \<Rightarrow> bool" where
  "is_frame_line (FrameLine fp eip a1 a2 a3 a4 a5) = True"
| "is_frame_line _ = False"

text \<open>
  The precondition of \<open>c\<close> and \<open>si\<close> fails: there is no paused context, or its trap number
  is neither the breakpoint's nor the single-step trap's.
\<close>

definition no_valid_context :: "kern \<Rightarrow> kstate \<Rightarrow> bool" where
  "no_valid_context e s =
     (case trapframe s of
        None \<Rightarrow> True
      | Some tf \<Rightarrow> tf_trapno tf \<noteq> T_BRKPT e \<and> tf_trapno tf \<noteq> T_DEBUG e)"

subsection \<open>A concrete kernel for evaluation\<close>

text \<open>
  The values of the JOS headers (\<open>KERNBASE\<close> at 0xF0000000, breakpoint trap 3, debug trap
  1, the trap flag 0x100 of EFLAGS), a numeric parser given by a table (text that is not in
  the table parses to zero), memory and the frame pointer as given, and a symbol resolver
  that knows no symbol.
\<close>

definition numbers :: "(string \<times> u32) list \<Rightarrow> string \<Rightarrow> u32" where
  "numbers tab str = (case map_of tab str of None \<Rightarrow> 0 | Some v \<Rightarrow> v)"

definition jos :: "(string \<Rightarrow> u32) \<Rightarrow> (u32 \<Rightarrow> u32 option) \<Rightarrow> u32 \<Rightarrow> kern" where
  "jos parse mem ebp =
     \<lparr>KERNBASE = 0xF0000000, T_BRKPT = 3, T_DEBUG = 1, FL_TF = 0x100,
      strtol = parse, KADDR = (\<lambda>pa. Some (pa + 0xF0000000)), load = mem, read_ebp = ebp,
      debuginfo_eip = (\<lambda>eip. \<lparr>eip_file = ''<unknown>'', eip_line = 0, eip_fn_name = ''<unknown>'',
         eip_fn_namelen = 9, eip_fn_addr = eip\<rparr>),
      sym_start = 0x0010000C, sym_entry = 0xF010000C, sym_etext = 0xF0101A75,
      sym_edata = 0xF0112300, sym_end = 0xF0112960\<rparr>"

definition boot :: kstate where
  "boot = \<lparr>trapframe = None, pgtab = Map.empty, console = []\<rparr>"

definition paused :: "u32 \<Rightarrow> Trapframe" where
  "paused trapno =
     \<lparr>tf_regs = [], tf_trapno = trapno, tf_eip = 0x800020, tf_eflags = 0x202, tf_esp = 0xEEBFDFC0\<rparr>"

text \<open>
  Memory holding twelve words, memory holding one word, a stack of three frames, and a
  symbol resolver that knows the functions the three return addresses lie in.
\<close>

definition mem1 :: "u32 \<Rightarrow> u32 option" where
  "mem1 = map_of [(0x1000, 0x11), (0x1004, 0x22), (0x1008, 0x33), (0x100C, 0x44),
     (0xF0001000, 0x55), (0xF0001004, 0x66), (0xF0001008, 0x77), (0xF000100C, 0x88),
     (0x1010, 0x99), (0x1014, 0xAA), (0x1018, 0xBB), (0x101C, 0xCC)]"

definition mem_one_word :: "u32 \<Rightarrow> u32 option" where
  "mem_one_word = map_of [(0x1000, 0x11)]"

definition kdebug :: "u32 \<Rightarrow> Eipdebuginfo" where
  "kdebug eip =
     (if eip = 0xF0100068 then
        \<lparr>eip_file = ''kern/init.c'', eip_line = 18, eip_fn_name = ''test_backtrace:F(0,1)'',
           eip_fn_namelen = 14, eip_fn_addr = 0xF0100040\<rparr>
      else if eip = 0xF01000D4 then
        \<lparr>eip_file = ''kern/init.c'', eip_line = 44, eip_fn_name = ''i386_init:F(0,1)'',
           eip_fn_namelen = 9, eip_fn_addr = 0xF010009D\<rparr>
      else
        \<lparr>eip_file = ''<unknown>'', eip_line = 0, eip_fn_name = ''<unknown>'',
           eip_fn_namelen = 9, eip_fn_addr = eip\<rparr>)"

definition stack3 :: "u32 \<Rightarrow> u32 option" where
  "stack3 = map_of
     [(0xF010FF58, 0xF010FF78), (0xF010FF5C, 0xF0100068), (0xF010FF60, 1), (0xF010FF64, 2),
      (0xF010FF68, 3), (0xF010FF6C, 4), (0xF010FF70, 5),
      (0xF010FF78, 0xF010FFD8), (0xF010FF7C, 0xF01000D4), (0xF010FF80, 6), (0xF010FF84, 7),
      (0xF010FF88, 8), (0xF010FF8C, 9), (0xF010FF90, 10),
      (0xF010FFD8, 0), (0xF010FFDC, 0xF010003E), (0xF010FFE0, 11), (0xF010FFE4, 12),
      (0xF010FFE8, 13), (0xF010FFEC, 14), (0xF010FFF0, 15)]"

section \<open>Properties\<close>

lemmas pte_defs = PGSIZE_def PGNUM_def PTE_ADDR_def PTE_FLAGS_def ROUNDDOWN_def
  PTE_P_def PTE_W_def PTE_U_def PTE_PWT_def PTE_PCD_def PTE_A_def PTE_D_def PTE_PS_def PTE_G_def
  render_status_def flag_char_def

lemmas token_eval = tokens_of_def close_word_def NUL_def WHITESPACE_def

subsection \<open>The interpreter computes the tokens of the line\<close>

lemma close_word_Nil [simp]: "close_word [] = []"
  by (simp add: close_word_def)

lemma length_store_args [simp]: "length (store_args argc ts argv) = length argv"
  by (induction ts arbitrary: argc argv) auto

lemma nth_store_args:
  "argc + length ts \<le> length argv \<Longrightarrow> i < length argv \<Longrightarrow>
   store_args argc ts argv ! i =
     (if argc \<le> i \<and> i < argc + length ts then Ptr (ts ! (i - argc)) else argv ! i)"
proof (induction ts arbitrary: argc argv)
  case Nil
  then show ?case by auto
next
  case (Cons t ts)
  have "i - argc = Suc (i - Suc argc)" if "Suc argc \<le> i"
    using that by simp
  with Cons show ?case
    by (auto simp: nth_list_update nth_Cons split: nat.splits)
qed

lemma length_argv_of [simp]: "length (argv_of toks) = MAXARGS"
  by (simp add: argv_of_def)

lemma argv_at_argv_of:
  assumes "length toks \<le> MAXARGS - 1"
  shows "argv_at (argv_of toks) i =
     (if i < length toks then Ptr (toks ! i) else if i = length toks then Null else Unset)"
proof (cases "i < MAXARGS")
  case True
  with assms show ?thesis
    by (auto simp: argv_at_def argv_of_def nth_list_update nth_store_args MAXARGS_def)
next
  case False
  with assms show ?thesis
    by (auto simp: argv_at_def MAXARGS_def)
qed

lemma split_line_gobble: "split_line [] (gobble buf) = split_line [] buf"
  by (induction buf) (auto simp: strchr_def close_word_def)

lemma split_line_scan:
  "split_line w buf = close_word (w @ arg_text buf) @ split_line [] (scan_arg buf)"
proof (induction buf arbitrary: w)
  case Nil
  then show ?case by simp
next
  case (Cons c cs)
  then show ?case by (cases cs) (auto simp: strchr_def close_word_def)
qed

lemma tokens_of_step:
  "tokens_of buf =
     (if peek (gobble buf) = NUL then []
      else arg_text (gobble buf) # tokens_of (scan_arg (gobble buf)))"
proof -
  define b where "b = gobble buf"
  have t: "tokens_of buf = split_line [] b"
    by (simp add: tokens_of_def split_line_gobble b_def)
  have "split_line [] b = (if peek b = NUL then [] else arg_text b # split_line [] (scan_arg b))"
  proof (cases b)
    case Nil
    then show ?thesis by (simp add: peek_def)
  next
    case (Cons c cs)
    show ?thesis
    proof (cases "c = NUL")
      case True
      then show ?thesis by (simp add: Cons peek_def)
    next
      case False
      then have ws: "\<not> strchr WHITESPACE c"
        using peek_gobble [of buf] by (simp add: Cons [unfolded b_def] peek_def)
      have "split_line [] b = close_word ([] @ arg_text b) @ split_line [] (scan_arg b)"
        by (rule split_line_scan)
      also have "\<dots> = arg_text b # split_line [] (scan_arg b)"
        using False ws by (simp add: Cons close_word_def)
      finally show ?thesis
        using False by (simp add: Cons peek_def)
    qed
  qed
  then show ?thesis
    unfolding t by (simp add: b_def tokens_of_def)
qed

lemma parse_args_tokens:
  "argc \<le> MAXARGS - 1 \<Longrightarrow>
   parse_args argc argv buf =
     (if argc + length (tokens_of buf) \<le> MAXARGS - 1
      then Some (argc + length (tokens_of buf), store_args argc (tokens_of buf) argv)
      else None)"
proof (induction argc argv buf rule: parse_args.induct)
  case (1 argc argv buf)
  show ?case
  proof (cases "peek (gobble buf) = NUL")
    case True
    then show ?thesis
      using "1.prems" by (subst parse_args.simps, subst (1 2 3) tokens_of_step) simp
  next
    case False
    show ?thesis
    proof (cases "argc = MAXARGS - 1")
      case True
      with False show ?thesis
        using "1.prems" by (subst parse_args.simps, subst (1 2 3) tokens_of_step) simp
    next
      case ne: False
      with "1.prems" have le: "argc + 1 \<le> MAXARGS - 1" by simp
      show ?thesis
        using False ne "1.IH" [OF refl False ne le]
        by (subst parse_args.simps, subst (1 2 3) tokens_of_step) (simp add: Let_def)
    qed
  qed
qed

lemma runcmd_tokens:
  assumes "tokens_of buf = name # args" and "length args < MAXARGS - 1"
  shows "runcmd e buf s = lookup commands name e (Suc (length args)) (argv_of (name # args)) s"
proof -
  have p: "parse_args 0 ((replicate MAXARGS Unset)[0 := Null]) buf
      = Some (Suc (length args), store_args 0 (name # args) ((replicate MAXARGS Unset)[0 := Null]))"
    using assms by (simp add: parse_args_tokens)
  have a: "argv_at (argv_of (name # args)) 0 = Ptr name"
    using assms(2) by (simp add: argv_at_argv_of)
  show ?thesis
    using a unfolding runcmd_def p by (simp add: argv_of_def)
qed

lemma lookup_commands:
  "lookup commands ''map'' e argc argv s = mon_map e argc argv s"
  "lookup commands ''set'' e argc argv s = Some (mon_set e argc argv s)"
  "lookup commands ''xp'' e argc argv s = mon_xp e argc argv s"
  "lookup commands ''xv'' e argc argv s = mon_xv e argc argv s"
  "lookup commands ''c'' e argc argv s = Some (mon_c e argc argv s)"
  "lookup commands ''si'' e argc argv s = Some (mon_si e argc argv s)"
  "lookup commands ''backtrace'' e argc argv s = mon_backtrace e argc argv s"
  by (simp_all add: commands_def)

lemma tokens_of_examples:
  "tokens_of ''c'' = [''c'']"
  "tokens_of ''si'' = [''si'']"
  "tokens_of ''map'' = [''map'']"
  "tokens_of ''backtrace'' = [''backtrace'']"
  "tokens_of ''xv 0x1000'' = [''xv'', ''0x1000'']"
  "tokens_of ''map 0x2000 0x1000'' = [''map'', ''0x2000'', ''0x1000'']"
  "tokens_of ''map 0x1000 0x1000'' = [''map'', ''0x1000'', ''0x1000'']"
  "tokens_of ''set 0xf0000000 0x7'' = [''set'', ''0xf0000000'', ''0x7'']"
  "tokens_of ''set 0xf0000001 0x7'' = [''set'', ''0xf0000001'', ''0x7'']"
  by (simp_all add: token_eval)

lemma tokens_of_examples2:
  "tokens_of ''xv 0x1000 1'' = [''xv'', ''0x1000'', ''1'']"
  "tokens_of ''xv 0x1000 4'' = [''xv'', ''0x1000'', ''4'']"
  "tokens_of ''xp 0x1000 4'' = [''xp'', ''0x1000'', ''4'']"
  "tokens_of ''set 0x1234 0x7'' = [''set'', ''0x1234'', ''0x7'']"
  "tokens_of ''set 0x1000 0x2007'' = [''set'', ''0x1000'', ''0x2007'']"
  "tokens_of ''map 0x1000 0x2000'' = [''map'', ''0x1000'', ''0x2000'']"
  "tokens_of ''map 0x1234 0x3000'' = [''map'', ''0x1234'', ''0x3000'']"
  "tokens_of ''xv 0x1000 5'' = [''xv'', ''0x1000'', ''5'']"
  by (simp_all add: token_eval)

lemma strtol_arg_argv_of:
  "strtol_arg e (argv_of [name, a, b]) 1 = Inr (strtol e a)"
  "strtol_arg e (argv_of [name, a, b]) 2 = Inr (strtol e b)"
  "strtol_arg e (argv_of [name, a, b]) (Suc 0) = Inr (strtol e a)"
  by (simp_all add: strtol_arg_def argv_at_argv_of MAXARGS_def)

lemma runcmd3:
  "tokens_of buf = [name, a, b] \<Longrightarrow>
   runcmd e buf s = lookup commands name e 3 (argv_of [name, a, b]) s"
  using runcmd_tokens [of buf name "[a, b]" e s] by (simp add: MAXARGS_def numeral_3_eq_3)

subsection \<open>set at the kernel/user boundary\<close>

text \<open>
  C1. The claim: for every address at or above \<open>KERNBASE\<close>, \<open>set\<close> reports an error and
  modifies no page-table entry. The guard of \<open>mon_set\<close> is \<open>page > KERNBASE\<close>, so the
  address \<open>KERNBASE\<close> itself is accepted: \<open>set 0xf0000000 0x7\<close> creates and writes the entry
  of the first kernel page, while \<open>set 0xf0000001 0x7\<close>, an address of the same page, is
  rejected with no entry touched.
\<close>

theorem mon_set_accepts_KERNBASE:
  "runcmd (jos (numbers [(''0xf0000000'', 0xF0000000), (''0xf0000001'', 0xF0000001), (''0x7'', 7)])
       (\<lambda>a. None) 0) ''set 0xf0000000 0x7'' boot
     = Some (Return 0,
         boot\<lparr>pgtab := [0xF0000 \<mapsto> 7], console := [PageRow 0xF0000 0xF0001 ''------UWP'' 0]\<rparr>) \<and>
   runcmd (jos (numbers [(''0xf0000000'', 0xF0000000), (''0xf0000001'', 0xF0000001), (''0x7'', 7)])
       (\<lambda>a. None) 0) ''set 0xf0000001 0x7'' boot
     = Some (Return 0, boot\<lparr>console := [SetInvalid 0xF0000001]\<rparr>)"
  unfolding runcmd3 [OF tokens_of_examples(8)] runcmd3 [OF tokens_of_examples(9)] lookup_commands
  by (simp add: mon_set_def strtol_arg_argv_of)
    (simp add: jos_def numbers_def boot_def pgdir_walk_def cprintf_def pte_defs)

subsection \<open>c and si without a valid paused context\<close>

lemma resume_invalid:
  assumes "no_valid_context e s"
  shows "mon_c e argc argv s = (Return (- 1), cprintf InvalidTrapframe s)"
    and "mon_si e argc argv s = (Return (- 1), cprintf InvalidTrapframe s)"
  using assms by (auto simp: mon_c_def mon_si_def no_valid_context_def split: option.splits)

text \<open>
  C3. When the paused context is absent, or its trap number is neither the breakpoint's
  nor the single-step trap's, \<open>c\<close> and \<open>si\<close> print the error and return -1 with the
  context as it was; the monitor loop that reads a line whose command is \<open>c\<close> or \<open>si\<close>
  then ends with every later line unread.
\<close>

theorem resume_rejected:
  assumes "no_valid_context e s"
    and "tokens_of buf = name # args" and "length args < MAXARGS - 1"
    and "name = ''c'' \<or> name = ''si''"
  shows "mon_c e argc argv s = (Return (- 1), cprintf InvalidTrapframe s) \<and>
         mon_si e argc argv s = (Return (- 1), cprintf InvalidTrapframe s) \<and>
         trapframe (cprintf InvalidTrapframe s) = trapframe s \<and>
         monitor_loop e (Some buf # lines) s
           = Some (Terminated, lines, cprintf InvalidTrapframe (cprintf Prompt s))"
proof -
  have p: "no_valid_context e (cprintf Prompt s)"
    using assms(1) by (simp add: no_valid_context_def cprintf_def)
  have "runcmd e buf (cprintf Prompt s)
      = Some (Return (- 1), cprintf InvalidTrapframe (cprintf Prompt s))"
    using assms(4) runcmd_tokens [OF assms(2) assms(3), of e "cprintf Prompt s"]
    by (auto simp: lookup_commands resume_invalid [OF p])
  then have "monitor_loop e (Some buf # lines) s
      = Some (Terminated, lines, cprintf InvalidTrapframe (cprintf Prompt s))"
    by simp
  moreover have "trapframe (cprintf InvalidTrapframe s) = trapframe s"
    by (simp add: cprintf_def)
  ultimately show ?thesis
    by (simp add: resume_invalid [OF assms(1)])
qed

theorem resume_rejected_witness:
  "monitor_loop (jos (numbers []) (\<lambda>a. None) 0) [Some ''c'', Some ''help''] boot
     = Some (Terminated, [Some ''help''], boot\<lparr>console := [Prompt, InvalidTrapframe]\<rparr>) \<and>
   monitor_loop (jos (numbers []) (\<lambda>a. None) 0) [Some ''si'', Some ''help'']
       (boot\<lparr>trapframe := Some (paused 14)\<rparr>)
     = Some (Terminated, [Some ''help''],
         boot\<lparr>trapframe := Some (paused 14), console := [Prompt, InvalidTrapframe]\<rparr>)"
proof -
  let ?e = "jos (numbers []) (\<lambda>a. None) 0"
  have 1: "no_valid_context ?e boot"
    by (simp add: no_valid_context_def boot_def)
  have 2: "no_valid_context ?e (boot\<lparr>trapframe := Some (paused 14)\<rparr>)"
    by (simp add: no_valid_context_def boot_def jos_def paused_def)
  have n: "length ([] :: string list) < MAXARGS - 1"
    by (simp add: MAXARGS_def)
  show ?thesis
    using resume_rejected [OF 1 tokens_of_examples(1) n, of 1 "[]" "[Some ''help'']"]
      resume_rejected [OF 2 tokens_of_examples(2) n, of 1 "[]" "[Some ''help'']"]
    by (simp add: cprintf_def boot_def)
qed

subsection \<open>c and si on a valid paused context\<close>

text \<open>
  C7. On a paused context whose trap number is the breakpoint's or the single-step
  trap's, \<open>c\<close> clears the single-step flag in the flags word of the context and leaves for
  \<open>env_run\<close>; \<open>si\<close> prints the symbol information \<open>debuginfo_eip\<close> resolves for the
  instruction pointer of the context, sets the single-step flag and leaves for \<open>env_run\<close>
  as well. Nothing else of the context changes, and the monitor loop is left with the
  later lines unread.
\<close>

theorem resume_hands_off:
  assumes "trapframe s = Some tf" and "tf_trapno tf = T_BRKPT e \<or> tf_trapno tf = T_DEBUG e"
  shows "mon_c e argc argv s
           = (EnvRun, s\<lparr>trapframe := Some (tf\<lparr>tf_eflags := tf_eflags tf AND NOT (FL_TF e)\<rparr>)\<rparr>) \<and>
         (tf_eflags tf AND NOT (FL_TF e)) AND FL_TF e = 0 \<and>
         mon_si e argc argv s
           = (EnvRun, s\<lparr>trapframe := Some (tf\<lparr>tf_eflags := tf_eflags tf OR FL_TF e\<rparr>),
                console := console s @
                  [StepLine (tf_eip tf) (eip_file (debuginfo_eip e (tf_eip tf)))
                     (eip_line (debuginfo_eip e (tf_eip tf)))
                     (eip_fn_namelen (debuginfo_eip e (tf_eip tf)))
                     (eip_fn_name (debuginfo_eip e (tf_eip tf)))
                     (tf_eip tf - eip_fn_addr (debuginfo_eip e (tf_eip tf)))]\<rparr>) \<and>
         (tf_eflags tf OR FL_TF e) AND FL_TF e = FL_TF e \<and>
         monitor_loop e (Some ''c'' # lines) s
           = Some (Resumed, lines, snd (mon_c e 1 (argv_of [''c'']) (cprintf Prompt s))) \<and>
         monitor_loop e (Some ''si'' # lines) s
           = Some (Resumed, lines, snd (mon_si e 1 (argv_of [''si'']) (cprintf Prompt s)))"
proof -
  have v: "\<not> (tf_trapno tf \<noteq> T_BRKPT e \<and> tf_trapno tf \<noteq> T_DEBUG e)"
    using assms(2) by auto
  have c: "mon_c e n a t
      = (EnvRun, t\<lparr>trapframe := Some (tf\<lparr>tf_eflags := tf_eflags tf AND NOT (FL_TF e)\<rparr>)\<rparr>)"
    if "trapframe t = Some tf" for n a t
    using that v by (simp add: mon_c_def)
  have si: "mon_si e n a t
      = (EnvRun, t\<lparr>trapframe := Some (tf\<lparr>tf_eflags := tf_eflags tf OR FL_TF e\<rparr>),
           console := console t @
             [StepLine (tf_eip tf) (eip_file (debuginfo_eip e (tf_eip tf)))
                (eip_line (debuginfo_eip e (tf_eip tf)))
                (eip_fn_namelen (debuginfo_eip e (tf_eip tf)))
                (eip_fn_name (debuginfo_eip e (tf_eip tf)))
                (tf_eip tf - eip_fn_addr (debuginfo_eip e (tf_eip tf)))]\<rparr>)"
    if "trapframe t = Some tf" for n a t
    using that v by (simp add: mon_si_def step_line_def cprintf_def Let_def)
  have p: "trapframe (cprintf Prompt s) = Some tf"
    using assms(1) by (simp add: cprintf_def)
  have b1: "(tf_eflags tf AND NOT (FL_TF e)) AND FL_TF e = 0"
    by (simp add: bit_eq_iff bit_and_iff bit_not_iff)
  have b2: "(tf_eflags tf OR FL_TF e) AND FL_TF e = FL_TF e"
    by (auto simp add: bit_eq_iff bit_and_iff bit_or_iff)
  have n: "length ([] :: string list) < MAXARGS - 1"
    by (simp add: MAXARGS_def)
  have r1: "runcmd e ''c'' t = Some (mon_c e 1 (argv_of [''c'']) t)" for t
    using runcmd_tokens [OF tokens_of_examples(1) n, of e t] by (simp add: lookup_commands)
  have r2: "runcmd e ''si'' t = Some (mon_si e 1 (argv_of [''si'']) t)" for t
    using runcmd_tokens [OF tokens_of_examples(2) n, of e t] by (simp add: lookup_commands)
  show ?thesis
    using assms(1) by (simp add: c si p b1 b2 r1 r2)
qed

theorem resume_hands_off_witness:
  "monitor_loop (jos (numbers []) (\<lambda>a. None) 0) [Some ''c'', Some ''help'']
       (boot\<lparr>trapframe := Some ((paused 1)\<lparr>tf_eflags := 0x302\<rparr>)\<rparr>)
     = Some (Resumed, [Some ''help''],
         boot\<lparr>trapframe := Some ((paused 1)\<lparr>tf_eflags := 0x202\<rparr>), console := [Prompt]\<rparr>) \<and>
   monitor_loop (jos (numbers []) (\<lambda>a. None) 0) [Some ''si'', Some ''help'']
       (boot\<lparr>trapframe := Some (paused 3)\<rparr>)
     = Some (Resumed, [Some ''help''],
         boot\<lparr>trapframe := Some ((paused 3)\<lparr>tf_eflags := 0x302\<rparr>),
              console := [Prompt, StepLine 0x800020 ''<unknown>'' 0 9 ''<unknown>'' 0]\<rparr>)"
proof -
  let ?e = "jos (numbers []) (\<lambda>a. None) 0"
  let ?s1 = "boot\<lparr>trapframe := Some ((paused 1)\<lparr>tf_eflags := 0x302\<rparr>)\<rparr>"
  let ?s3 = "boot\<lparr>trapframe := Some (paused 3)\<rparr>"
  have t1: "trapframe ?s1 = Some ((paused 1)\<lparr>tf_eflags := 0x302\<rparr>)"
    and t3: "trapframe ?s3 = Some (paused 3)"
    by simp_all
  have v1: "tf_trapno ((paused 1)\<lparr>tf_eflags := 0x302\<rparr>) = T_BRKPT ?e
      \<or> tf_trapno ((paused 1)\<lparr>tf_eflags := 0x302\<rparr>) = T_DEBUG ?e"
    and v3: "tf_trapno (paused 3) = T_BRKPT ?e \<or> tf_trapno (paused 3) = T_DEBUG ?e"
    by (simp_all add: paused_def jos_def)
  show ?thesis
    using resume_hands_off [OF t1 v1, of 1 "[]" "[Some ''help'']"]
      resume_hands_off [OF t3 v3, of 1 "[]" "[Some ''help'']"]
    by (simp add: mon_c_def mon_si_def step_line_def cprintf_def boot_def paused_def jos_def)
qed

subsection \<open>Lines with too many tokens\<close>

lemma runcmd_no_tokens: "tokens_of buf = [] \<Longrightarrow> runcmd e buf s = Some (Return 0, s)"
  by (simp add: runcmd_def parse_args_tokens)

text \<open>
  C8. A line with more than 15 tokens (\<open>MAXARGS\<close> is 16 and one slot is kept for the null
  after the last argument) makes \<open>runcmd\<close> print the error and return 0: no handler runs,
  and the context and the page table are as before. A line of 17 tokens is such a line.
  Only such lines are rejected: with up to 15 tokens the command named by the first token
  is looked up and given the argument vector of the tokens, and an empty line does nothing.
\<close>

theorem runcmd_rejects_long_lines:
  "(MAXARGS - 1 < length (tokens_of buf) \<longrightarrow>
      runcmd e buf s = Some (Return 0, cprintf (TooManyArguments MAXARGS) s) \<and>
      trapframe (cprintf (TooManyArguments MAXARGS) s) = trapframe s \<and>
      pgtab (cprintf (TooManyArguments MAXARGS) s) = pgtab s) \<and>
   (length (tokens_of buf) \<le> MAXARGS - 1 \<longrightarrow>
      runcmd e buf s =
        (case tokens_of buf of
           [] \<Rightarrow> Some (Return 0, s)
         | name # args \<Rightarrow> lookup commands name e (Suc (length args)) (argv_of (name # args)) s))"
proof (intro conjI impI)
  assume "MAXARGS - 1 < length (tokens_of buf)"
  then show "runcmd e buf s = Some (Return 0, cprintf (TooManyArguments MAXARGS) s)"
    by (simp add: runcmd_def parse_args_tokens)
next
  show "trapframe (cprintf (TooManyArguments MAXARGS) s) = trapframe s"
    and "pgtab (cprintf (TooManyArguments MAXARGS) s) = pgtab s"
    by (simp_all add: cprintf_def)
next
  assume le: "length (tokens_of buf) \<le> MAXARGS - 1"
  show "runcmd e buf s =
      (case tokens_of buf of
         [] \<Rightarrow> Some (Return 0, s)
       | name # args \<Rightarrow> lookup commands name e (Suc (length args)) (argv_of (name # args)) s)"
  proof (cases "tokens_of buf")
    case Nil
    then show ?thesis by (simp add: runcmd_no_tokens)
  next
    case (Cons name args)
    with le have "length args < MAXARGS - 1" by simp
    from runcmd_tokens [OF Cons this] show ?thesis by (simp add: Cons)
  qed
qed

theorem runcmd_rejects_long_lines_witness:
  "length (tokens_of ''c a a a a a a a a a a a a a a a a'') = 17 \<and>
   runcmd (jos (numbers []) (\<lambda>a. None) 0) ''c a a a a a a a a a a a a a a a a'' boot
     = Some (Return 0, boot\<lparr>console := [TooManyArguments 16]\<rparr>) \<and>
   length (tokens_of ''c a a a a a a a a a a a a a a'') = 15 \<and>
   runcmd (jos (numbers []) (\<lambda>a. None) 0) ''c a a a a a a a a a a a a a a'' boot
     = Some (Return (- 1), boot\<lparr>console := [InvalidTrapframe]\<rparr>)"
proof -
  let ?e = "jos (numbers []) (\<lambda>a. None) 0"
  have n: "length (tokens_of ''c a a a a a a a a a a a a a a a a'') = 17"
    by (simp add: token_eval)
  then have "MAXARGS - 1 < length (tokens_of ''c a a a a a a a a a a a a a a a a'')"
    by (simp add: MAXARGS_def)
  with runcmd_rejects_long_lines [of "''c a a a a a a a a a a a a a a a a''" ?e boot]
  have long: "runcmd ?e ''c a a a a a a a a a a a a a a a a'' boot
      = Some (Return 0, boot\<lparr>console := [TooManyArguments 16]\<rparr>)"
    by (simp add: cprintf_def boot_def MAXARGS_def)
  have t: "tokens_of ''c a a a a a a a a a a a a a a'' = ''c'' # replicate 14 ''a''"
    by (simp add: token_eval numeral_eq_Suc)
  then have "length (tokens_of ''c a a a a a a a a a a a a a a'') \<le> MAXARGS - 1"
    by (simp add: MAXARGS_def)
  with runcmd_rejects_long_lines [of "''c a a a a a a a a a a a a a a''" ?e boot]
  have short: "runcmd ?e ''c a a a a a a a a a a a a a a'' boot
      = Some (Return (- 1), boot\<lparr>console := [InvalidTrapframe]\<rparr>)"
    by (simp add: t lookup_commands mon_c_def cprintf_def boot_def)
  from n long t short show ?thesis by simp
qed

subsection \<open>map, set, xp and xv with missing arguments\<close>

lemma parser_fault:
  assumes "strtol_arg e argv 1 = Inl f
      \<or> (\<exists>v. strtol_arg e argv 1 = Inr v) \<and> strtol_arg e argv 2 = Inl f"
  shows "mon_map e argc argv s = Some (Fault f, s)"
    and "mon_set e argc argv s = (Fault f, s)"
    and "mon_xp e argc argv s = Some (Fault f, s)"
    and "mon_xv e argc argv s = Some (Fault f, s)"
  using assms by (auto simp: mon_map_def mon_set_def mon_xp_def mon_xv_def)

text \<open>
  C10. \<open>map\<close>, \<open>set\<close>, \<open>xp\<close> and \<open>xv\<close> hand \<open>argv[1]\<close> and \<open>argv[2]\<close> to the numeric
  parser whatever \<open>argc\<close> is. On a line of one or two tokens the slot after the last
  token holds the null \<open>runcmd\<close> stored there and the slot after it was never written; the
  handler is invoked all the same, and the parser is given the null pointer.
\<close>

theorem handlers_index_argv_unchecked:
  assumes "tokens_of buf = name # args" and "length args < 2"
    and "name \<in> {''map'', ''set'', ''xp'', ''xv''}"
  shows "argv_at (argv_of (name # args)) (Suc (length args)) = Null \<and>
         argv_at (argv_of (name # args)) (Suc (Suc (length args))) = Unset \<and>
         lookup commands name e (Suc (length args)) (argv_of (name # args)) s = runcmd e buf s \<and>
         runcmd e buf s = Some (Fault NullArgument, s) \<and>
         mon_map e argc argv t = mon_map e argc' argv t \<and>
         mon_set e argc argv t = mon_set e argc' argv t \<and>
         mon_xp e argc argv t = mon_xp e argc' argv t \<and>
         mon_xv e argc argv t = mon_xv e argc' argv t"
proof -
  let ?argv = "argv_of (name # args)"
  have len: "length (name # args) \<le> MAXARGS - 1" "length args < MAXARGS - 1"
    using assms(2) by (simp_all add: MAXARGS_def)
  have null: "argv_at ?argv (Suc (length args)) = Null"
    and unset: "argv_at ?argv (Suc (Suc (length args))) = Unset"
    by (simp_all add: argv_at_argv_of [OF len(1)])
  have run: "runcmd e buf s = lookup commands name e (Suc (length args)) ?argv s"
    by (rule runcmd_tokens [OF assms(1) len(2)])
  have "strtol_arg e ?argv 1 = Inl NullArgument \<or>
        (\<exists>v. strtol_arg e ?argv 1 = Inr v) \<and> strtol_arg e ?argv 2 = Inl NullArgument"
  proof (cases args)
    case Nil
    with null show ?thesis by (simp add: strtol_arg_def)
  next
    case (Cons a as)
    with assms(2) have as: "as = []" by simp
    have "argv_at ?argv 1 = Ptr a"
      unfolding argv_at_argv_of [OF len(1)] by (simp add: Cons)
    moreover have "argv_at ?argv 2 = Null"
      using null by (simp add: Cons as numeral_2_eq_2)
    ultimately show ?thesis by (simp add: strtol_arg_def)
  qed
  from parser_fault [OF this]
  have "lookup commands name e (Suc (length args)) ?argv s = Some (Fault NullArgument, s)"
    using assms(3) by (auto simp: lookup_commands)
  with null unset run show ?thesis
    by (simp add: mon_map_def mon_set_def mon_xp_def mon_xv_def)
qed

theorem handlers_index_argv_unchecked_witness:
  "runcmd (jos (numbers []) (\<lambda>a. None) 0) ''map'' boot = Some (Fault NullArgument, boot) \<and>
   runcmd (jos (numbers []) (\<lambda>a. None) 0) ''xv 0x1000'' boot = Some (Fault NullArgument, boot) \<and>
   argv_at (argv_of [''map'']) 1 = Null \<and> argv_at (argv_of [''map'']) 2 = Unset \<and>
   argv_at (argv_of [''xv'', ''0x1000'']) 2 = Null"
proof -
  show ?thesis
    using handlers_index_argv_unchecked [OF tokens_of_examples(3), of "jos (numbers []) (\<lambda>a. None) 0" boot]
      handlers_index_argv_unchecked [OF tokens_of_examples(5), of "jos (numbers []) (\<lambda>a. None) 0" boot]
    by (simp add: numeral_2_eq_2)
qed

subsection \<open>Memory dumps\<close>

lemma unat_of_nat_small: "n < 2 ^ 32 \<Longrightarrow> unat (of_nat n :: u32) = n"
  by (simp add: unat_of_nat)

lemma xv_words_read:
  assumes "\<forall>k < 4 * N. load e (start + 4 * of_nat k) = Some (w k)" and "j < N"
  shows "xv_words e (start + 16 * of_nat j) = Some (w (4 * j), w (4 * j + 1), w (4 * j + 2), w (4 * j + 3))"
proof -
  have r: "load e (start + 4 * of_nat k) = Some (w k)" if "k < 4 * N" for k
    using assms(1) that by blast
  have "load e (start + 16 * of_nat j) = Some (w (4 * j))"
    using r [of "4 * j"] assms(2) by simp
  moreover have "load e (start + 16 * of_nat j + 4) = Some (w (4 * j + 1))"
    using r [of "4 * j + 1"] assms(2) by (simp add: algebra_simps)
  moreover have "load e (start + 16 * of_nat j + 8) = Some (w (4 * j + 2))"
    using r [of "4 * j + 2"] assms(2) by (simp add: algebra_simps)
  moreover have "load e (start + 16 * of_nat j + 12) = Some (w (4 * j + 3))"
    using r [of "4 * j + 3"] assms(2) by (simp add: algebra_simps)
  ultimately show ?thesis
    by (simp add: xv_words_def)
qed

lemma xv_loop_lines:
  assumes "unat len \<le> 2 ^ 32 - 4"
    and "\<forall>k < 4 * dump_lines len. load e (start + 4 * of_nat k) = Some (w k)"
    and "j \<le> dump_lines len"
  shows "xv_loop e len (of_nat (4 * j)) (start + 16 * of_nat j) s
     = Some (Return 0, s\<lparr>console := console s @ map (dump_line w start) [j ..< dump_lines len]\<rparr>)"
  using assms(3)
proof (induction "dump_lines len - j" arbitrary: j s)
  case 0
  then have j: "j = dump_lines len" by simp
  define i :: u32 where "i = of_nat (4 * j)"
  have "4 * j < 2 ^ 32"
    using assms(1) by (simp add: j dump_lines_def)
  then have u: "unat i = 4 * j"
    unfolding i_def by (rule unat_of_nat_small)
  have "\<not> i < len"
    unfolding word_less_nat_alt u by (simp add: j dump_lines_def)
  then have "xv_loop e len i (start + 16 * of_nat j) s = Some (Return 0, s)"
    by (subst xv_loop.simps) simp
  then show ?case
    by (simp add: j i_def)
next
  case (Suc n)
  then have j: "j < dump_lines len" by simp
  define i :: u32 where "i = of_nat (4 * j)"
  define st :: u32 where "st = start + 16 * of_nat j"
  define line where "line = dump_line w start j"
  have "4 * j < 2 ^ 32"
    using assms(1) j by (simp add: dump_lines_def)
  then have u: "unat i = 4 * j"
    unfolding i_def by (rule unat_of_nat_small)
  have lt: "i < len"
    unfolding word_less_nat_alt u using j by (simp add: dump_lines_def)
  have words: "xv_words e st = Some (w (4 * j), w (4 * j + 1), w (4 * j + 2), w (4 * j + 3))"
    unfolding st_def by (rule xv_words_read [OF assms(2) j])
  have step: "i + 4 = of_nat (4 * Suc j)" "st + 16 = start + 16 * of_nat (Suc j)"
    by (simp_all add: i_def st_def algebra_simps)
  have line: "line = DumpLine st (w (4 * j)) (w (4 * j + 1)) (w (4 * j + 2)) (w (4 * j + 3))"
    by (simp add: line_def dump_line_def st_def)
  have "xv_loop e len i st s = xv_loop e len (i + 4) (st + 16) (cprintf line s)"
    unfolding line by (subst xv_loop.simps) (simp add: lt words)
  also have "\<dots> = Some (Return 0, (cprintf line s)
      \<lparr>console := console (cprintf line s) @ map (dump_line w start) [Suc j ..< dump_lines len]\<rparr>)"
    unfolding step using Suc.hyps(1) [of "Suc j" "cprintf line s"] Suc.hyps(2) j by simp
  also have "\<dots> = Some (Return 0, s\<lparr>console := console s @ map (dump_line w start) [j ..< dump_lines len]\<rparr>)"
    by (simp add: cprintf_def line_def upt_conv_Cons [OF j])
  finally show ?case
    by (simp add: i_def st_def)
qed

lemma xp_words_read:
  assumes "\<forall>k < 4 * N. load_phys e (start + 4 * of_nat k) = Some (w k)" and "j < N"
  shows "xp_words e (start + 16 * of_nat j) = Some (w (4 * j), w (4 * j + 1), w (4 * j + 2), w (4 * j + 3))"
proof -
  have r: "load_phys e (start + 4 * of_nat k) = Some (w k)" if "k < 4 * N" for k
    using assms(1) that by blast
  have "load_phys e (start + 16 * of_nat j) = Some (w (4 * j))"
    using r [of "4 * j"] assms(2) by simp
  moreover have "load_phys e (start + 16 * of_nat j + 4) = Some (w (4 * j + 1))"
    using r [of "4 * j + 1"] assms(2) by (simp add: algebra_simps)
  moreover have "load_phys e (start + 16 * of_nat j + 8) = Some (w (4 * j + 2))"
    using r [of "4 * j + 2"] assms(2) by (simp add: algebra_simps)
  moreover have "load_phys e (start + 16 * of_nat j + 12) = Some (w (4 * j + 3))"
    using r [of "4 * j + 3"] assms(2) by (simp add: algebra_simps)
  ultimately show ?thesis
    by (simp add: xp_words_def)
qed

lemma xp_loop_lines:
  assumes "unat len \<le> 2 ^ 32 - 4"
    and "\<forall>k < 4 * dump_lines len. load_phys e (start + 4 * of_nat k) = Some (w k)"
    and "j \<le> dump_lines len"
  shows "xp_loop e len (of_nat (4 * j)) (start + 16 * of_nat j) s
     = Some (Return 0, s\<lparr>console := console s @ map (dump_line w start) [j ..< dump_lines len]\<rparr>)"
  using assms(3)
proof (induction "dump_lines len - j" arbitrary: j s)
  case 0
  then have j: "j = dump_lines len" by simp
  define i :: u32 where "i = of_nat (4 * j)"
  have "4 * j < 2 ^ 32"
    using assms(1) by (simp add: j dump_lines_def)
  then have u: "unat i = 4 * j"
    unfolding i_def by (rule unat_of_nat_small)
  have "\<not> i < len"
    unfolding word_less_nat_alt u by (simp add: j dump_lines_def)
  then have "xp_loop e len i (start + 16 * of_nat j) s = Some (Return 0, s)"
    by (subst xp_loop.simps) simp
  then show ?case
    by (simp add: j i_def)
next
  case (Suc n)
  then have j: "j < dump_lines len" by simp
  define i :: u32 where "i = of_nat (4 * j)"
  define st :: u32 where "st = start + 16 * of_nat j"
  define line where "line = dump_line w start j"
  have "4 * j < 2 ^ 32"
    using assms(1) j by (simp add: dump_lines_def)
  then have u: "unat i = 4 * j"
    unfolding i_def by (rule unat_of_nat_small)
  have lt: "i < len"
    unfolding word_less_nat_alt u using j by (simp add: dump_lines_def)
  have words: "xp_words e st = Some (w (4 * j), w (4 * j + 1), w (4 * j + 2), w (4 * j + 3))"
    unfolding st_def by (rule xp_words_read [OF assms(2) j])
  have step: "i + 4 = of_nat (4 * Suc j)" "st + 16 = start + 16 * of_nat (Suc j)"
    by (simp_all add: i_def st_def algebra_simps)
  have line: "line = DumpLine st (w (4 * j)) (w (4 * j + 1)) (w (4 * j + 2)) (w (4 * j + 3))"
    by (simp add: line_def dump_line_def st_def)
  have "xp_loop e len i st s = xp_loop e len (i + 4) (st + 16) (cprintf line s)"
    unfolding line by (subst xp_loop.simps) (simp add: lt words)
  also have "\<dots> = Some (Return 0, (cprintf line s)
      \<lparr>console := console (cprintf line s) @ map (dump_line w start) [Suc j ..< dump_lines len]\<rparr>)"
    unfolding step using Suc.hyps(1) [of "Suc j" "cprintf line s"] Suc.hyps(2) j by simp
  also have "\<dots> = Some (Return 0, s\<lparr>console := console s @ map (dump_line w start) [j ..< dump_lines len]\<rparr>)"
    by (simp add: cprintf_def line_def upt_conv_Cons [OF j])
  finally show ?case
    by (simp add: i_def st_def)
qed

lemma xv_words_fault:
  assumes "4 * j \<le> k" and "k < 4 * j + 4" and "load e (start + 4 * of_nat k) = None"
  shows "xv_words e (start + 16 * of_nat j) = None"
proof -
  from assms(1,2) consider "k = 4 * j" | "k = 4 * j + 1" | "k = 4 * j + 2" | "k = 4 * j + 3"
    by linarith
  then show ?thesis
  proof cases
    case 1
    with assms(3) have "load e (start + 16 * of_nat j) = None" by simp
    then show ?thesis by (simp add: xv_words_def)
  next
    case 2
    with assms(3) have "load e (start + 16 * of_nat j + 4) = None" by (simp add: algebra_simps)
    then show ?thesis by (simp add: xv_words_def split: Option.bind_split)
  next
    case 3
    with assms(3) have "load e (start + 16 * of_nat j + 8) = None" by (simp add: algebra_simps)
    then show ?thesis by (simp add: xv_words_def split: Option.bind_split)
  next
    case 4
    with assms(3) have "load e (start + 16 * of_nat j + 12) = None" by (simp add: algebra_simps)
    then show ?thesis by (simp add: xv_words_def split: Option.bind_split)
  qed
qed

lemma xv_loop_fault:
  assumes "unat len \<le> 2 ^ 32 - 4" and "j0 < dump_lines len"
    and "\<forall>k < 4 * j0. load e (start + 4 * of_nat k) = Some (w k)"
    and "xv_words e (start + 16 * of_nat j0) = None"
    and "j \<le> j0"
  shows "xv_loop e len (of_nat (4 * j)) (start + 16 * of_nat j) s
     = Some (Fault BadAccess, s\<lparr>console := console s @ map (dump_line w start) [j ..< j0]\<rparr>)"
  using assms(5)
proof (induction "j0 - j" arbitrary: j s)
  case 0
  then have j: "j = j0" by simp
  define i :: u32 where "i = of_nat (4 * j)"
  have "4 * j < 2 ^ 32"
    using assms(1,2) by (simp add: j dump_lines_def)
  then have u: "unat i = 4 * j"
    unfolding i_def by (rule unat_of_nat_small)
  have lt: "i < len"
    unfolding word_less_nat_alt u using assms(2) by (simp add: j dump_lines_def)
  have "xv_loop e len i (start + 16 * of_nat j0) s = Some (Fault BadAccess, s)"
    by (subst xv_loop.simps) (simp add: lt assms(4))
  then show ?case
    by (simp add: j i_def)
next
  case (Suc n)
  then have j: "j < j0" by simp
  with assms(2) have jl: "j < dump_lines len" by simp
  define i :: u32 where "i = of_nat (4 * j)"
  define st :: u32 where "st = start + 16 * of_nat j"
  define line where "line = dump_line w start j"
  have "4 * j < 2 ^ 32"
    using assms(1) jl by (simp add: dump_lines_def)
  then have u: "unat i = 4 * j"
    unfolding i_def by (rule unat_of_nat_small)
  have lt: "i < len"
    unfolding word_less_nat_alt u using jl by (simp add: dump_lines_def)
  have words: "xv_words e st = Some (w (4 * j), w (4 * j + 1), w (4 * j + 2), w (4 * j + 3))"
    unfolding st_def by (rule xv_words_read [OF assms(3) j])
  have step: "i + 4 = of_nat (4 * Suc j)" "st + 16 = start + 16 * of_nat (Suc j)"
    by (simp_all add: i_def st_def algebra_simps)
  have line: "line = DumpLine st (w (4 * j)) (w (4 * j + 1)) (w (4 * j + 2)) (w (4 * j + 3))"
    by (simp add: line_def dump_line_def st_def)
  have "xv_loop e len i st s = xv_loop e len (i + 4) (st + 16) (cprintf line s)"
    unfolding line by (subst xv_loop.simps) (simp add: lt words)
  also have "\<dots> = Some (Fault BadAccess, (cprintf line s)
      \<lparr>console := console (cprintf line s) @ map (dump_line w start) [Suc j ..< j0]\<rparr>)"
    unfolding step using Suc.hyps(1) [of "Suc j" "cprintf line s"] Suc.hyps(2) j by simp
  also have "\<dots> = Some (Fault BadAccess, s\<lparr>console := console s @ map (dump_line w start) [j ..< j0]\<rparr>)"
    by (simp add: cprintf_def line_def upt_conv_Cons [OF j])
  finally show ?case
    by (simp add: i_def st_def)
qed

lemma xp_words_fault:
  assumes "4 * j \<le> k" and "k < 4 * j + 4" and "load_phys e (start + 4 * of_nat k) = None"
  shows "xp_words e (start + 16 * of_nat j) = None"
proof -
  from assms(1,2) consider "k = 4 * j" | "k = 4 * j + 1" | "k = 4 * j + 2" | "k = 4 * j + 3"
    by linarith
  then show ?thesis
  proof cases
    case 1
    with assms(3) have "load_phys e (start + 16 * of_nat j) = None" by simp
    then show ?thesis by (simp add: xp_words_def)
  next
    case 2
    with assms(3) have "load_phys e (start + 16 * of_nat j + 4) = None" by (simp add: algebra_simps)
    then show ?thesis by (simp add: xp_words_def split: Option.bind_split)
  next
    case 3
    with assms(3) have "load_phys e (start + 16 * of_nat j + 8) = None" by (simp add: algebra_simps)
    then show ?thesis by (simp add: xp_words_def split: Option.bind_split)
  next
    case 4
    with assms(3) have "load_phys e (start + 16 * of_nat j + 12) = None" by (simp add: algebra_simps)
    then show ?thesis by (simp add: xp_words_def split: Option.bind_split)
  qed
qed

lemma xp_loop_fault:
  assumes "unat len \<le> 2 ^ 32 - 4" and "j0 < dump_lines len"
    and "\<forall>k < 4 * j0. load_phys e (start + 4 * of_nat k) = Some (w k)"
    and "xp_words e (start + 16 * of_nat j0) = None"
    and "j \<le> j0"
  shows "xp_loop e len (of_nat (4 * j)) (start + 16 * of_nat j) s
     = Some (Fault BadAccess, s\<lparr>console := console s @ map (dump_line w start) [j ..< j0]\<rparr>)"
  using assms(5)
proof (induction "j0 - j" arbitrary: j s)
  case 0
  then have j: "j = j0" by simp
  define i :: u32 where "i = of_nat (4 * j)"
  have "4 * j < 2 ^ 32"
    using assms(1,2) by (simp add: j dump_lines_def)
  then have u: "unat i = 4 * j"
    unfolding i_def by (rule unat_of_nat_small)
  have lt: "i < len"
    unfolding word_less_nat_alt u using assms(2) by (simp add: j dump_lines_def)
  have "xp_loop e len i (start + 16 * of_nat j0) s = Some (Fault BadAccess, s)"
    by (subst xp_loop.simps) (simp add: lt assms(4))
  then show ?case
    by (simp add: j i_def)
next
  case (Suc n)
  then have j: "j < j0" by simp
  with assms(2) have jl: "j < dump_lines len" by simp
  define i :: u32 where "i = of_nat (4 * j)"
  define st :: u32 where "st = start + 16 * of_nat j"
  define line where "line = dump_line w start j"
  have "4 * j < 2 ^ 32"
    using assms(1) jl by (simp add: dump_lines_def)
  then have u: "unat i = 4 * j"
    unfolding i_def by (rule unat_of_nat_small)
  have lt: "i < len"
    unfolding word_less_nat_alt u using jl by (simp add: dump_lines_def)
  have words: "xp_words e st = Some (w (4 * j), w (4 * j + 1), w (4 * j + 2), w (4 * j + 3))"
    unfolding st_def by (rule xp_words_read [OF assms(3) j])
  have step: "i + 4 = of_nat (4 * Suc j)" "st + 16 = start + 16 * of_nat (Suc j)"
    by (simp_all add: i_def st_def algebra_simps)
  have line: "line = DumpLine st (w (4 * j)) (w (4 * j + 1)) (w (4 * j + 2)) (w (4 * j + 3))"
    by (simp add: line_def dump_line_def st_def)
  have "xp_loop e len i st s = xp_loop e len (i + 4) (st + 16) (cprintf line s)"
    unfolding line by (subst xp_loop.simps) (simp add: lt words)
  also have "\<dots> = Some (Fault BadAccess, (cprintf line s)
      \<lparr>console := console (cprintf line s) @ map (dump_line w start) [Suc j ..< j0]\<rparr>)"
    unfolding step using Suc.hyps(1) [of "Suc j" "cprintf line s"] Suc.hyps(2) j by simp
  also have "\<dots> = Some (Fault BadAccess, s\<lparr>console := console s @ map (dump_line w start) [j ..< j0]\<rparr>)"
    by (simp add: cprintf_def line_def upt_conv_Cons [OF j])
  finally show ?case
    by (simp add: i_def st_def)
qed

lemma words_of_dump_lines:
  "concat (map words_of_out (map (dump_line w start) [0 ..< n])) = map w [0 ..< 4 * n]"
proof (induction n)
  case 0
  then show ?case by simp
next
  case (Suc n)
  have "[0 ..< 4 * Suc n] = [0 ..< 4 * n] @ [4 * n, 4 * n + 1, 4 * n + 2, 4 * n + 3]"
    by (simp add: upt_rec [of "4 * n"] numeral_eq_Suc)
  with Suc show ?case
    by (simp add: dump_line_def)
qed

text \<open>
  C5, as stated, fails: the loop prints four words per iteration and stops once the
  count reaches \<open>length\<close>, so \<open>xv 0x1000 1\<close> prints a whole line of four words, not one
  word.
\<close>

theorem dump_of_one_word:
  "runcmd (jos (numbers [(''0x1000'', 0x1000), (''1'', 1)]) mem1 0) ''xv 0x1000 1'' boot
     = Some (Return 0, boot\<lparr>console := [DumpLine 0x1000 0x11 0x22 0x33 0x44]\<rparr>) \<and>
   length (concat (map words_of_out [DumpLine 0x1000 0x11 0x22 0x33 0x44]))
     \<noteq> unat (strtol (jos (numbers [(''0x1000'', 0x1000), (''1'', 1)]) mem1 0) ''1'')"
proof -
  let ?e = "jos (numbers [(''0x1000'', 0x1000), (''1'', 1)]) mem1 0"
  have w: "xv_words ?e 0x1000 = Some (0x11, 0x22, 0x33, 0x44)"
    by (simp add: xv_words_def jos_def mem1_def)
  have "xv_loop ?e 1 0 0x1000 boot = xv_loop ?e 1 4 0x1010 (cprintf (DumpLine 0x1000 0x11 0x22 0x33 0x44) boot)"
    by (subst xv_loop.simps) (simp add: w)
  also have "\<dots> = Some (Return 0, cprintf (DumpLine 0x1000 0x11 0x22 0x33 0x44) boot)"
    by (subst xv_loop.simps) simp
  finally have "mon_xv ?e 3 (argv_of [''xv'', ''0x1000'', ''1'']) boot
      = Some (Return 0, cprintf (DumpLine 0x1000 0x11 0x22 0x33 0x44) boot)"
    by (simp add: mon_xv_def strtol_arg_argv_of) (simp add: jos_def numbers_def)
  then show ?thesis
    unfolding runcmd3 [OF tokens_of_examples2(1)] lookup_commands
    by (simp add: cprintf_def boot_def jos_def numbers_def)
qed

text \<open>
  C5, amended. For every start and every length up to 0xFFFFFFFC, \<open>xv\<close> and \<open>xp\<close> work in
  whole lines of four words: the length divided by four, rounded up, lines, whose words
  are the words at the addresses \<open>start + 4 * k\<close> (for \<open>xp\<close>, at the kernel addresses
  \<open>KADDR\<close> gives for them) for \<open>k\<close> below four times the number of lines, so up to three
  words past the \<open>length\<close> requested. When all these words can be read, exactly these lines
  are printed, line \<open>j\<close> showing the address \<open>start + 16 * j\<close> and the words \<open>4 * j\<close> to
  \<open>4 * j + 3\<close>, and the command returns 0; the words printed are \<open>length\<close> many exactly
  when \<open>length\<close> is a multiple of four, and with length 4 one line of four words is
  printed. When a word of line \<open>j\<close> cannot be read and the words of the lines before it
  can, the lines before line \<open>j\<close> are printed and the access faults.
\<close>

theorem dump_prints_whole_lines:
  assumes "strtol_arg e argv 1 = Inr start" and "strtol_arg e argv 2 = Inr len"
    and "unat len \<le> 2 ^ 32 - 4"
  shows "((\<forall>k < 4 * dump_lines len. load e (start + 4 * of_nat k) = Some (w k)) \<longrightarrow>
            mon_xv e argc argv s
              = Some (Return 0, s\<lparr>console := console s @ map (dump_line w start) [0 ..< dump_lines len]\<rparr>)) \<and>
         ((\<forall>k < 4 * dump_lines len. load_phys e (start + 4 * of_nat k) = Some (w k)) \<longrightarrow>
            mon_xp e argc argv s
              = Some (Return 0, s\<lparr>console := console s @ map (dump_line w start) [0 ..< dump_lines len]\<rparr>)) \<and>
         (j < dump_lines len \<and> (\<forall>k < 4 * j. load e (start + 4 * of_nat k) = Some (w k)) \<and>
          4 * j \<le> k0 \<and> k0 < 4 * j + 4 \<and> load e (start + 4 * of_nat k0) = None \<longrightarrow>
            mon_xv e argc argv s
              = Some (Fault BadAccess, s\<lparr>console := console s @ map (dump_line w start) [0 ..< j]\<rparr>)) \<and>
         (j < dump_lines len \<and> (\<forall>k < 4 * j. load_phys e (start + 4 * of_nat k) = Some (w k)) \<and>
          4 * j \<le> k0 \<and> k0 < 4 * j + 4 \<and> load_phys e (start + 4 * of_nat k0) = None \<longrightarrow>
            mon_xp e argc argv s
              = Some (Fault BadAccess, s\<lparr>console := console s @ map (dump_line w start) [0 ..< j]\<rparr>)) \<and>
         concat (map words_of_out (map (dump_line w start) [0 ..< dump_lines len]))
           = map w [0 ..< 4 * dump_lines len] \<and>
         (unat len mod 4 = 0 \<longrightarrow> 4 * dump_lines len = unat len) \<and>
         (len = 4 \<longrightarrow>
            map (dump_line w start) [0 ..< dump_lines len] = [DumpLine start (w 0) (w 1) (w 2) (w 3)])"
proof (intro conjI impI)
  assume r: "\<forall>k < 4 * dump_lines len. load e (start + 4 * of_nat k) = Some (w k)"
  show "mon_xv e argc argv s
      = Some (Return 0, s\<lparr>console := console s @ map (dump_line w start) [0 ..< dump_lines len]\<rparr>)"
    using xv_loop_lines [OF assms(3) r, of 0 s] assms(1,2) by (simp add: mon_xv_def)
next
  assume r: "\<forall>k < 4 * dump_lines len. load_phys e (start + 4 * of_nat k) = Some (w k)"
  show "mon_xp e argc argv s
      = Some (Return 0, s\<lparr>console := console s @ map (dump_line w start) [0 ..< dump_lines len]\<rparr>)"
    using xp_loop_lines [OF assms(3) r, of 0 s] assms(1,2) by (simp add: mon_xp_def)
next
  assume a: "j < dump_lines len \<and> (\<forall>k < 4 * j. load e (start + 4 * of_nat k) = Some (w k)) \<and>
      4 * j \<le> k0 \<and> k0 < 4 * j + 4 \<and> load e (start + 4 * of_nat k0) = None"
  then have f: "xv_words e (start + 16 * of_nat j) = None"
    by (intro xv_words_fault [of j k0]) simp_all
  from a have j: "j < dump_lines len" and r: "\<forall>k < 4 * j. load e (start + 4 * of_nat k) = Some (w k)"
    by simp_all
  show "mon_xv e argc argv s
      = Some (Fault BadAccess, s\<lparr>console := console s @ map (dump_line w start) [0 ..< j]\<rparr>)"
    using xv_loop_fault [OF assms(3) j r f, of 0 s] assms(1,2) by (simp add: mon_xv_def)
next
  assume a: "j < dump_lines len \<and> (\<forall>k < 4 * j. load_phys e (start + 4 * of_nat k) = Some (w k)) \<and>
      4 * j \<le> k0 \<and> k0 < 4 * j + 4 \<and> load_phys e (start + 4 * of_nat k0) = None"
  then have f: "xp_words e (start + 16 * of_nat j) = None"
    by (intro xp_words_fault [of j k0]) simp_all
  from a have j: "j < dump_lines len" and r: "\<forall>k < 4 * j. load_phys e (start + 4 * of_nat k) = Some (w k)"
    by simp_all
  show "mon_xp e argc argv s
      = Some (Fault BadAccess, s\<lparr>console := console s @ map (dump_line w start) [0 ..< j]\<rparr>)"
    using xp_loop_fault [OF assms(3) j r f, of 0 s] assms(1,2) by (simp add: mon_xp_def)
next
  show "concat (map words_of_out (map (dump_line w start) [0 ..< dump_lines len]))
      = map w [0 ..< 4 * dump_lines len]"
    by (rule words_of_dump_lines)
next
  assume "unat len mod 4 = 0"
  then show "4 * dump_lines len = unat len"
    unfolding dump_lines_def by presburger
next
  assume "len = 4"
  then have "dump_lines len = 1"
    by (simp add: dump_lines_def)
  then show "map (dump_line w start) [0 ..< dump_lines len] = [DumpLine start (w 0) (w 1) (w 2) (w 3)]"
    by (simp add: dump_line_def numeral_2_eq_2)
qed

theorem dump_prints_whole_lines_witness:
  "runcmd (jos (numbers [(''0x1000'', 0x1000), (''4'', 4), (''5'', 5), (''1'', 1)]) mem1 0)
       ''xv 0x1000 4'' boot
     = Some (Return 0, boot\<lparr>console := [DumpLine 0x1000 0x11 0x22 0x33 0x44]\<rparr>) \<and>
   runcmd (jos (numbers [(''0x1000'', 0x1000), (''4'', 4), (''5'', 5), (''1'', 1)]) mem1 0)
       ''xp 0x1000 4'' boot
     = Some (Return 0, boot\<lparr>console := [DumpLine 0x1000 0x55 0x66 0x77 0x88]\<rparr>) \<and>
   runcmd (jos (numbers [(''0x1000'', 0x1000), (''4'', 4), (''5'', 5), (''1'', 1)]) mem1 0)
       ''xv 0x1000 5'' boot
     = Some (Return 0, boot\<lparr>console :=
         [DumpLine 0x1000 0x11 0x22 0x33 0x44, DumpLine 0x1010 0x99 0xAA 0xBB 0xCC]\<rparr>) \<and>
   runcmd (jos (numbers [(''0x1000'', 0x1000), (''4'', 4), (''5'', 5), (''1'', 1)]) mem_one_word 0)
       ''xv 0x1000 1'' boot
     = Some (Fault BadAccess, boot)"
proof -
  let ?n = "numbers [(''0x1000'', 0x1000), (''4'', 4), (''5'', 5), (''1'', 1)]"
  let ?e = "jos ?n mem1 0"
  let ?f = "jos ?n mem_one_word 0"
  have v: "strtol ?e ''0x1000'' = 0x1000" "strtol ?e ''4'' = 4" "strtol ?e ''5'' = 5"
    "strtol ?f ''0x1000'' = 0x1000" "strtol ?f ''1'' = 1"
    by (simp_all add: jos_def numbers_def)
  have a: "strtol_arg ?e (argv_of [''xv'', ''0x1000'', ''4'']) 1 = Inr 0x1000"
    "strtol_arg ?e (argv_of [''xv'', ''0x1000'', ''4'']) 2 = Inr 4"
    "strtol_arg ?e (argv_of [''xp'', ''0x1000'', ''4'']) 1 = Inr 0x1000"
    "strtol_arg ?e (argv_of [''xp'', ''0x1000'', ''4'']) 2 = Inr 4"
    "strtol_arg ?e (argv_of [''xv'', ''0x1000'', ''5'']) 1 = Inr 0x1000"
    "strtol_arg ?e (argv_of [''xv'', ''0x1000'', ''5'']) 2 = Inr 5"
    "strtol_arg ?f (argv_of [''xv'', ''0x1000'', ''1'']) 1 = Inr 0x1000"
    "strtol_arg ?f (argv_of [''xv'', ''0x1000'', ''1'']) 2 = Inr 1"
    by (simp_all add: strtol_arg_argv_of v)
  have n: "unat (4 :: u32) \<le> 2 ^ 32 - 4" "unat (5 :: u32) \<le> 2 ^ 32 - 4" "unat (1 :: u32) \<le> 2 ^ 32 - 4"
    by simp_all
  have k4: "k < 4 \<longleftrightarrow> k = 0 \<or> k = 1 \<or> k = 2 \<or> k = 3" for k :: nat
    by auto
  have k8: "k < 8 \<longleftrightarrow> k = 0 \<or> k = 1 \<or> k = 2 \<or> k = 3 \<or> k = 4 \<or> k = 5 \<or> k = 6 \<or> k = 7" for k :: nat
    by auto
  have d: "dump_lines 4 = 1" "dump_lines 5 = 2" "dump_lines 1 = 1"
    by (simp_all add: dump_lines_def)
  let ?w = "\<lambda>k. [0x11, 0x22, 0x33, 0x44, 0x99, 0xAA, 0xBB, 0xCC] ! k"
  have r1: "\<forall>k < 4 * dump_lines 4. load ?e (0x1000 + 4 * of_nat k) = Some (?w k)"
    by (auto simp: d k4 jos_def mem1_def)
  have r2: "\<forall>k < 4 * dump_lines 4. load_phys ?e (0x1000 + 4 * of_nat k) = Some ([0x55, 0x66, 0x77, 0x88] ! k)"
    by (auto simp: d k4 jos_def mem1_def load_phys_def)
  have r3: "\<forall>k < 4 * dump_lines 5. load ?e (0x1000 + 4 * of_nat k) = Some (?w k)"
    by (auto simp: d k8 jos_def mem1_def)
  have r4: "(0 :: nat) < dump_lines 1 \<and> (\<forall>k < 4 * 0. load ?f (0x1000 + 4 * of_nat k) = Some (?w k)) \<and>
      4 * 0 \<le> (1 :: nat) \<and> (1 :: nat) < 4 * 0 + 4 \<and> load ?f (0x1000 + 4 * of_nat (1 :: nat)) = None"
    by (simp add: d jos_def mem_one_word_def)
  have m1: "mon_xv ?e 3 (argv_of [''xv'', ''0x1000'', ''4'']) boot
      = Some (Return 0, boot\<lparr>console := [DumpLine 0x1000 0x11 0x22 0x33 0x44]\<rparr>)"
    using dump_prints_whole_lines [OF a(1) a(2) n(1), of ?w 3 boot] r1
    by (simp add: boot_def d dump_line_def)
  have m2: "mon_xp ?e 3 (argv_of [''xp'', ''0x1000'', ''4'']) boot
      = Some (Return 0, boot\<lparr>console := [DumpLine 0x1000 0x55 0x66 0x77 0x88]\<rparr>)"
    using dump_prints_whole_lines [OF a(3) a(4) n(1), of "\<lambda>k. [0x55, 0x66, 0x77, 0x88] ! k" 3 boot] r2
    by (simp add: boot_def d dump_line_def)
  have m3: "mon_xv ?e 3 (argv_of [''xv'', ''0x1000'', ''5'']) boot
      = Some (Return 0, boot\<lparr>console :=
          [DumpLine 0x1000 0x11 0x22 0x33 0x44, DumpLine 0x1010 0x99 0xAA 0xBB 0xCC]\<rparr>)"
    using dump_prints_whole_lines [OF a(5) a(6) n(2), of ?w 3 boot] r3
    by (simp add: boot_def d dump_line_def upt_rec numeral_2_eq_2)
  have m4: "mon_xv ?f 3 (argv_of [''xv'', ''0x1000'', ''1'']) boot = Some (Fault BadAccess, boot)"
    using dump_prints_whole_lines [OF a(7) a(8) n(3), of ?w 3 boot 0 1] r4
    by (simp add: boot_def)
  show ?thesis
    unfolding runcmd3 [OF tokens_of_examples2(2)] runcmd3 [OF tokens_of_examples2(3)]
      runcmd3 [OF tokens_of_examples2(8)] runcmd3 [OF tokens_of_examples2(1)] lookup_commands
      m1 m2 m3 m4
    by simp
qed

subsection \<open>The stack unwinder\<close>

lemma frame_record_simp:
  "frame_record e (fp, eip, a1, a2, a3, a4, a5) = [FrameLine fp eip a1 a2 a3 a4 a5, sym_line e eip]"
  by (simp add: frame_record_def sym_line_def Let_def)

lemma frame_at_words:
  "frame_at e (fp, eip, a1, a2, a3, a4, a5) link \<Longrightarrow>
   frame_words e fp = Some (eip, a1, a2, a3, a4, a5) \<and> load e fp = Some link"
  by (simp add: frame_at_def frame_words_def)

lemma backtrace_loop_chain:
  "frame_chain e (f # fs) \<Longrightarrow>
   backtrace_loop e (fst f) s
     = Some (Return 0, s\<lparr>console := console s @ concat (map (frame_record e) (f # fs))\<rparr>)"
proof (induction fs arbitrary: f s)
  case Nil
  obtain fp eip a1 a2 a3 a4 a5 where f: "f = (fp, eip, a1, a2, a3, a4, a5)"
    by (cases f)
  from Nil have "frame_at e (fp, eip, a1, a2, a3, a4, a5) 0"
    by (simp add: f)
  from frame_at_words [OF this] show ?case
    by (subst backtrace_loop.simps) (simp add: f frame_record_simp cprintf_def)
next
  case (Cons g gs)
  obtain fp eip a1 a2 a3 a4 a5 where f: "f = (fp, eip, a1, a2, a3, a4, a5)"
    by (cases f)
  from Cons.prems have at: "frame_at e (fp, eip, a1, a2, a3, a4, a5) (fst g)"
    and nz: "fst g \<noteq> 0" and rest: "frame_chain e (g # gs)"
    by (simp_all add: f)
  define s' where "s' = cprintf (sym_line e eip) (cprintf (FrameLine fp eip a1 a2 a3 a4 a5) s)"
  have "backtrace_loop e fp s = backtrace_loop e (fst g) s'"
    using frame_at_words [OF at] nz
    by (subst backtrace_loop.simps) (simp add: s'_def)
  also have "\<dots> = Some (Return 0, s'\<lparr>console := console s' @ concat (map (frame_record e) (g # gs))\<rparr>)"
    by (rule Cons.IH [OF rest])
  finally show ?case
    by (simp add: f s'_def frame_record_simp cprintf_def)
qed

lemma frame_lines_count:
  "length (filter is_frame_line (concat (map (frame_record e) fs))) = length fs"
  by (induction fs) (auto simp: frame_record_def split: prod.splits)

text \<open>
  C9. When the frame-pointer register points to a chain of frames whose last link is
  zero, \<open>backtrace\<close> prints, after its header, one record per frame of the chain, in
  order: the frame pointer, the return address found one word above it and the five
  words found two to six words above it, then the file, line, function name with its
  length, and offset into the function that \<open>debuginfo_eip\<close> resolves for that return
  address. It follows the link stored at each frame pointer and returns at the zero link.
  Only the seven words of each frame are read: whatever the rest of memory holds, and also
  where every other access would fault, a chain of three frames gives exactly three
  records.
\<close>

theorem backtrace_follows_chain:
  assumes "frame_chain e frames" and "read_ebp e = fst (hd frames)"
  shows "mon_backtrace e argc argv s
           = Some (Return 0,
               s\<lparr>console := console s @ BacktraceHeader # concat (map (frame_record e) frames)\<rparr>) \<and>
         length (filter is_frame_line (concat (map (frame_record e) frames))) = length frames"
proof -
  from assms(1) obtain f fs where fr: "frames = f # fs"
    by (cases frames) simp_all
  have "mon_backtrace e argc argv s
      = Some (Return 0, s\<lparr>console := console s @ BacktraceHeader # concat (map (frame_record e) frames)\<rparr>)"
    using backtrace_loop_chain [OF assms(1) [unfolded fr], of "cprintf BacktraceHeader s"] assms(2)
    by (simp add: mon_backtrace_def fr cprintf_def)
  then show ?thesis
    using frame_lines_count [of e frames] by simp
qed

theorem backtrace_follows_chain_witness:
  "runcmd ((jos (numbers []) stack3 0xF010FF58)\<lparr>debuginfo_eip := kdebug\<rparr>) ''backtrace'' boot
     = Some (Return 0, boot\<lparr>console :=
         [BacktraceHeader,
          FrameLine 0xF010FF58 0xF0100068 1 2 3 4 5,
          SymLine ''kern/init.c'' 18 14 ''test_backtrace:F(0,1)'' 0x28,
          FrameLine 0xF010FF78 0xF01000D4 6 7 8 9 10,
          SymLine ''kern/init.c'' 44 9 ''i386_init:F(0,1)'' 0x37,
          FrameLine 0xF010FFD8 0xF010003E 11 12 13 14 15,
          SymLine ''<unknown>'' 0 9 ''<unknown>'' 0]\<rparr>)"
proof -
  let ?e = "(jos (numbers []) stack3 0xF010FF58)\<lparr>debuginfo_eip := kdebug\<rparr>"
  let ?frames = "[(0xF010FF58, 0xF0100068, 1, 2, 3, 4, 5), (0xF010FF78, 0xF01000D4, 6, 7, 8, 9, 10),
      (0xF010FFD8, 0xF010003E, 11, 12, 13, 14, 15)] :: frame list"
  have c: "frame_chain ?e ?frames"
    by (simp add: frame_at_def jos_def stack3_def)
  have b: "read_ebp ?e = fst (hd ?frames)"
    by (simp add: jos_def)
  have n: "length ([] :: string list) < MAXARGS - 1"
    by (simp add: MAXARGS_def)
  have r: "runcmd ?e ''backtrace'' boot = mon_backtrace ?e 1 (argv_of [''backtrace'']) boot"
    using runcmd_tokens [OF tokens_of_examples(4) n, of ?e boot] by (simp add: lookup_commands)
  show ?thesis
    unfolding r using backtrace_follows_chain [OF c b, of 1 "argv_of [''backtrace'']" boot]
    by (simp add: frame_record_def kdebug_def jos_def boot_def)
qed

subsection \<open>set replaces the flag bits\<close>

lemma mask12: "(mask 12 :: u32) = 0xFFF"
  by (simp add: mask_eq_exp_minus_1)

lemma small_flag:
  assumes "flag \<le> (0xFFF::u32)"
  shows "flag AND 0xFFF = flag" and "flag AND NOT 0xFFF = 0"
proof -
  have "unat flag < 2 ^ 12"
    using assms by (simp add: word_le_nat_alt)
  then have "flag < 2 ^ 12"
    by (simp add: word_less_nat_alt)
  then have "flag AND mask 12 = flag"
    by (rule less_mask_eq)
  then show m: "flag AND 0xFFF = flag"
    by (simp add: mask12)
  have "flag AND NOT 0xFFF = (flag AND 0xFFF) AND NOT 0xFFF"
    by (simp add: m)
  also have "\<dots> = 0"
    by (simp add: and.assoc)
  finally show "flag AND NOT 0xFFF = 0" .
qed

lemma rounddown_le: "ROUNDDOWN a PGSIZE \<le> a"
  unfolding ROUNDDOWN_def
  by (metis (no_types, lifting) linorder_le_less_linear mod_by_0
    mod_word_less order_less_trans order_refl word_gt_0
    word_mod_less_divisor word_sub_le)

lemma pgnum_rounddown: "PGNUM (ROUNDDOWN a PGSIZE) = PGNUM a"
proof -
  have le: "a mod 4096 \<le> a"
    using rounddown_le [of a]
    by (metis (no_types, lifting) linorder_le_less_linear mod_by_0
    mod_word_less order_less_trans order_refl word_gt_0
    word_mod_less_divisor)
  have n: "(n - n mod 4096) div 4096 = n div 4096" for n :: nat
    by (simp add: minus_mod_eq_mult_div)
  have "unat (drop_bit 12 (a - a mod 4096)) = unat (drop_bit 12 a)"
    by (simp add: unat_drop_bit_eq unat_sub [OF le] unat_mod unat_div drop_bit_eq_div n)
  then show ?thesis
    by (simp add: PGNUM_def ROUNDDOWN_def PGSIZE_def word_unat_eq_iff)
qed

lemma render_status_flags: "render_status (PTE_ADDR old OR flag) = render_status flag"
  by (simp add: render_status_def flag_char_def PTE_ADDR_def
      PTE_P_def PTE_W_def PTE_U_def PTE_PWT_def PTE_PCD_def PTE_A_def PTE_D_def PTE_PS_def PTE_G_def
      bit.conj_disj_distrib2 and.assoc)

lemma pte_set_bits:
  assumes "flag \<le> 0xFFF"
  shows "PTE_FLAGS (PTE_ADDR old OR flag) = flag" and "PTE_ADDR (PTE_ADDR old OR flag) = PTE_ADDR old"
  using small_flag [OF assms]
  by (simp_all add: PTE_FLAGS_def PTE_ADDR_def bit.conj_disj_distrib2 and.assoc)


lemma pgdir_walk_resolves:
  "pgdir_walk pt va = (PGNUM va, pt(PGNUM va \<mapsto> resolved_entry pt va))"
  by (auto simp: pgdir_walk_def resolved_entry_def split: option.splits)

lemma mon_set_accepted:
  assumes "strtol_arg e argv 1 = Inr page" and "strtol_arg e argv 2 = Inr flag"
    and "page \<le> KERNBASE e"
  shows "mon_set e argc argv s = (Return 0, set_result s page flag)"
proof -
  have "\<not> (page < 0 \<or> KERNBASE e < page)"
    using assms(3) by simp
  then show ?thesis
    using assms(1,2)
    by (simp add: mon_set_def Let_def pgdir_walk_resolves pgnum_rounddown set_result_def
        resolved_entry_def)
qed

lemma map_loop_one_page:
  assumes "pgtab s (PGNUM pg) = Some pte" and "pg < end" and "end \<le> pg + PGSIZE"
  shows "map_loop end pg s
     = Some (Return 0, cprintf (PageRow (PGNUM pg) (PGNUM pg + 1) (render_status pte) (PGNUM pte)) s)"
proof -
  define s' where "s' = cprintf (PageRow (PGNUM pg) (PGNUM pg + 1) (render_status pte) (PGNUM pte)) s"
  have w: "pgdir_walk (pgtab s) pg = (PGNUM pg, pgtab s)"
    using assms(1) by (simp add: pgdir_walk_def)
  have "map_loop end pg s = map_loop end (pg + PGSIZE) s'"
    using assms(1,2) by (subst map_loop.simps) (simp add: w s'_def)
  also have "\<dots> = Some (Return 0, s')"
  proof -
    have "\<not> pg + PGSIZE < end"
      using assms(3) by (simp add: not_less)
    then show ?thesis
      by (subst map_loop.simps) simp
  qed
  finally show ?thesis
    by (simp add: s'_def)
qed

text \<open>
  C2. The claim: after \<open>set\<close> the entry of the page has flag bits equal to the flags
  value given and the physical frame-address bits it had before. \<open>mon_set\<close> keeps the
  frame address by masking the old entry with \<open>PTE_ADDR\<close>, but ORs the flags value into
  it without masking it to the flag bits, so a flags value with a bit above the low
  twelve moves the frame address. On an entry 0x5003, \<open>set 0x1000 0x2007\<close> leaves 0x7007:
  the frame address went from 0x5000 to 0x7000, and the flag bits are 0x007, not the
  0x2007 given.
\<close>

theorem mon_set_moves_frame_bits:
  "runcmd (jos (numbers [(''0x1000'', 0x1000), (''0x2007'', 0x2007)]) (\<lambda>a. None) 0)
       ''set 0x1000 0x2007'' (boot\<lparr>pgtab := [1 \<mapsto> 0x5003]\<rparr>)
     = Some (Return 0,
         boot\<lparr>pgtab := [1 \<mapsto> 0x7007], console := [PageRow 1 2 ''------UWP'' 7]\<rparr>) \<and>
   PTE_ADDR 0x7007 \<noteq> PTE_ADDR 0x5003 \<and> PTE_FLAGS 0x7007 \<noteq> 0x2007"
  unfolding runcmd3 [OF tokens_of_examples2(5)] lookup_commands
  by (simp add: mon_set_def strtol_arg_argv_of)
    (simp add: jos_def numbers_def boot_def pgdir_walk_def cprintf_def pte_defs)

text \<open>
  Where the flags value has no bit above the low twelve, \<open>set\<close> does keep the frame
  address: for every page address \<open>set\<close> accepts, the entry of the page gets the flag
  bits given and keeps the frame-address bits of the resolved entry, no other entry and
  nothing of the paused context changes, and a later \<open>map\<close> over a range within that page
  prints one row, rendering the nine flag bits as given to \<open>set\<close>.
\<close>

theorem mon_set_replaces_flags:
  assumes "strtol_arg e argv 1 = Inr page" and "strtol_arg e argv 2 = Inr flag"
    and "page \<le> KERNBASE e"
    and "strtol_arg e argv' 1 = Inr start" and "strtol_arg e argv' 2 = Inr end"
    and "ROUNDDOWN start PGSIZE = ROUNDDOWN page PGSIZE"
    and "start < end" and "end \<le> ROUNDDOWN page PGSIZE + PGSIZE"
  shows "mon_set e argc argv s = (Return 0, set_result s page flag) \<and>
         (\<exists>pte. pgtab (set_result s page flag) (PGNUM page) = Some pte \<and>
            pte = PTE_ADDR (resolved_entry (pgtab s) page) OR flag \<and>
            (flag \<le> 0xFFF \<longrightarrow>
               PTE_FLAGS pte = flag \<and>
               PTE_ADDR pte = PTE_ADDR (resolved_entry (pgtab s) page)) \<and>
            render_status pte = render_status flag \<and>
            mon_map e argc' argv' (set_result s page flag)
              = Some (Return 0,
                  cprintf (PageRow (PGNUM page) (PGNUM page + 1) (render_status flag) (PGNUM pte))
                    (set_result s page flag))) \<and>
         (\<forall>k. k \<noteq> PGNUM page \<longrightarrow> pgtab (set_result s page flag) k = pgtab s k) \<and>
         trapframe (set_result s page flag) = trapframe s"
proof -
  define old where "old = resolved_entry (pgtab s) page"
  define pte where "pte = PTE_ADDR old OR flag"
  define pg where "pg = ROUNDDOWN page PGSIZE"
  let ?s = "set_result s page flag"
  have e: "pgtab ?s (PGNUM page) = Some pte"
    by (simp add: set_result_def cprintf_def pte_def old_def Let_def)
  have "pg \<le> start"
    using rounddown_le [of start] assms(6) by (simp add: pg_def)
  with assms(7) have lt: "pg < end" by simp
  have "map_loop end pg ?s
      = Some (Return 0, cprintf (PageRow (PGNUM pg) (PGNUM pg + 1) (render_status pte) (PGNUM pte)) ?s)"
    using e lt assms(8) by (intro map_loop_one_page) (simp_all add: pg_def pgnum_rounddown)
  then have m: "mon_map e argc' argv' ?s
      = Some (Return 0, cprintf (PageRow (PGNUM page) (PGNUM page + 1) (render_status flag) (PGNUM pte)) ?s)"
    using assms(4,5,6,7)
    by (simp add: mon_map_def pg_def pgnum_rounddown pte_def render_status_flags)
  have b: "PTE_FLAGS pte = flag \<and> PTE_ADDR pte = PTE_ADDR old" if "flag \<le> 0xFFF"
    using pte_set_bits [OF that, of old] by (simp add: pte_def)
  have r: "render_status pte = render_status flag"
    by (simp add: pte_def render_status_flags)
  from e m b r have "\<exists>pte. pgtab ?s (PGNUM page) = Some pte \<and>
      pte = PTE_ADDR (resolved_entry (pgtab s) page) OR flag \<and>
      (flag \<le> 0xFFF \<longrightarrow>
         PTE_FLAGS pte = flag \<and> PTE_ADDR pte = PTE_ADDR (resolved_entry (pgtab s) page)) \<and>
      render_status pte = render_status flag \<and>
      mon_map e argc' argv' ?s
        = Some (Return 0, cprintf (PageRow (PGNUM page) (PGNUM page + 1) (render_status flag) (PGNUM pte)) ?s)"
    by (simp add: old_def pte_def)
  moreover have "\<forall>k. k \<noteq> PGNUM page \<longrightarrow> pgtab ?s k = pgtab s k"
    by (simp add: set_result_def cprintf_def Let_def)
  moreover have "trapframe ?s = trapframe s"
    by (simp add: set_result_def cprintf_def Let_def)
  ultimately show ?thesis
    using mon_set_accepted [OF assms(1,2,3)] by simp
qed

theorem mon_set_replaces_flags_witness:
  "runcmd (jos (numbers [(''0x1234'', 0x1234), (''0x7'', 7), (''0x1000'', 0x1000), (''0x2000'', 0x2000)])
        (\<lambda>a. None) 0) ''set 0x1234 0x7'' (boot\<lparr>pgtab := [1 \<mapsto> 0x5003]\<rparr>)
     = Some (Return 0,
         boot\<lparr>pgtab := [1 \<mapsto> 0x5007], console := [PageRow 1 2 ''------UWP'' 5]\<rparr>) \<and>
   runcmd (jos (numbers [(''0x1234'', 0x1234), (''0x7'', 7), (''0x1000'', 0x1000), (''0x2000'', 0x2000)])
        (\<lambda>a. None) 0) ''map 0x1000 0x2000''
       (boot\<lparr>pgtab := [1 \<mapsto> 0x5007], console := [PageRow 1 2 ''------UWP'' 5]\<rparr>)
     = Some (Return 0,
         boot\<lparr>pgtab := [1 \<mapsto> 0x5007],
              console := [PageRow 1 2 ''------UWP'' 5, PageRow 1 2 ''------UWP'' 5]\<rparr>) \<and>
   PTE_FLAGS 0x5007 = 7 \<and> PTE_ADDR 0x5007 = PTE_ADDR 0x5003"
proof -
  let ?e = "jos (numbers [(''0x1234'', 0x1234), (''0x7'', 7), (''0x1000'', 0x1000), (''0x2000'', 0x2000)])
        (\<lambda>a. None) 0"
  let ?s0 = "boot\<lparr>pgtab := [1 \<mapsto> 0x5003]\<rparr>"
  let ?s1 = "boot\<lparr>pgtab := [1 \<mapsto> 0x5007], console := [PageRow 1 2 ''------UWP'' 5]\<rparr>"
  have v: "strtol ?e ''0x1234'' = 0x1234" "strtol ?e ''0x7'' = 7"
    "strtol ?e ''0x1000'' = 0x1000" "strtol ?e ''0x2000'' = 0x2000"
    by (simp_all add: jos_def numbers_def)
  have a: "strtol_arg ?e (argv_of [''set'', ''0x1234'', ''0x7'']) 1 = Inr 0x1234"
    "strtol_arg ?e (argv_of [''set'', ''0x1234'', ''0x7'']) 2 = Inr 7"
    "strtol_arg ?e (argv_of [''map'', ''0x1000'', ''0x2000'']) 1 = Inr 0x1000"
    "strtol_arg ?e (argv_of [''map'', ''0x1000'', ''0x2000'']) 2 = Inr 0x2000"
    by (simp_all add: strtol_arg_argv_of v)
  have h: "(0x1234 :: u32) \<le> KERNBASE ?e" "(7 :: u32) \<le> 0xFFF"
    "ROUNDDOWN 0x1000 PGSIZE = ROUNDDOWN 0x1234 PGSIZE" "(0x1000 :: u32) < 0x2000"
    "(0x2000 :: u32) \<le> ROUNDDOWN 0x1234 PGSIZE + PGSIZE"
    by (simp_all add: jos_def ROUNDDOWN_def PGSIZE_def)
  have r: "set_result ?s0 0x1234 7 = ?s1"
    by (simp add: set_result_def resolved_entry_def boot_def cprintf_def pte_defs)
  show ?thesis
    unfolding runcmd3 [OF tokens_of_examples2(4)] runcmd3 [OF tokens_of_examples2(6)] lookup_commands
    using mon_set_replaces_flags [OF a(1) a(2) h(1) a(3) a(4) h(3) h(4) h(5), of 3 ?s0 3] h(2)
    unfolding r
    by (simp add: boot_def cprintf_def pte_defs resolved_entry_def)
qed

subsection \<open>The transitions of the monitor loop\<close>

lemma monitor_loop_terminated:
  "monitor_loop e lines s = Some (Terminated, rest, s') \<Longrightarrow>
   \<exists>before buf s0 r. lines = before @ Some buf # rest \<and>
      runcmd e buf (cprintf Prompt s0) = Some (Return r, s') \<and> r < 0"
proof (induction lines arbitrary: s)
  case Nil
  then show ?case by simp
next
  case (Cons l ls)
  show ?case
  proof (cases l)
    case None
    with Cons.prems have "monitor_loop e ls (cprintf Prompt s) = Some (Terminated, rest, s')"
      by simp
    from Cons.IH [OF this] obtain before buf s0 r where
      "ls = before @ Some buf # rest" "runcmd e buf (cprintf Prompt s0) = Some (Return r, s')" "r < 0"
      by blast
    then have "l # ls = (None # before) @ Some buf # rest" using None by simp
    with \<open>runcmd e buf (cprintf Prompt s0) = Some (Return r, s')\<close> \<open>r < 0\<close> show ?thesis by blast
  next
    case (Some buf)
    show ?thesis
    proof (cases "runcmd e buf (cprintf Prompt s)")
      case None
      with Cons.prems Some show ?thesis by simp
    next
      case res: (Some p)
      obtain out t where p: "p = (out, t)" by (cases p)
      show ?thesis
      proof (cases out)
        case (Return r)
        show ?thesis
        proof (cases "r < 0")
          case True
          with Cons.prems Some res p Return have "rest = ls" "s' = t" by simp_all
          with Some res p Return True have "l # ls = [] @ Some buf # rest"
            "runcmd e buf (cprintf Prompt s) = Some (Return r, s')" by simp_all
          with True show ?thesis by blast
        next
          case False
          with Cons.prems Some res p Return have "monitor_loop e ls t = Some (Terminated, rest, s')"
            by simp
          from Cons.IH [OF this] obtain before b s0 r' where
            "ls = before @ Some b # rest" "runcmd e b (cprintf Prompt s0) = Some (Return r', s')" "r' < 0"
            by blast
          then have "l # ls = (l # before) @ Some b # rest" by simp
          with \<open>runcmd e b (cprintf Prompt s0) = Some (Return r', s')\<close> \<open>r' < 0\<close> show ?thesis by blast
        qed
      next
        case EnvRun
        with Cons.prems Some res p show ?thesis by simp
      next
        case (Fault f)
        with Cons.prems Some res p show ?thesis by simp
      qed
    qed
  qed
qed

text \<open>
  C4, as stated, fails: when \<open>readline\<close> returns no line (\<open>NULL\<close>, its end-of-input) the
  loop of \<open>monitor\<close> skips \<open>runcmd\<close> and calls \<open>readline\<close> again. After one such call the
  monitor has printed its prompt a second time and waits for a line; it has not ended.
\<close>

theorem monitor_loop_ignores_end_of_input:
  "monitor_loop (jos (numbers []) (\<lambda>a. None) 0) [None] boot
     = Some (AwaitingLine, [], boot\<lparr>console := [Prompt, Prompt]\<rparr>)"
  by (simp add: cprintf_def boot_def)

text \<open>
  C4, amended. The monitor loop ends exactly when a command handler returns a negative
  status: a line whose handler returns a negative status ends it with the later lines
  unread, and a loop that has ended has read a line whose handler returned a negative
  status. When \<open>readline\<close> returns no line, and when a handler returns a status that is
  not negative, the loop prompts and reads again.
\<close>

theorem monitor_loop_transitions:
  "monitor_loop e (None # lines) s = monitor_loop e lines (cprintf Prompt s) \<and>
   (runcmd e buf (cprintf Prompt s) = Some (Return r, s1) \<longrightarrow>
      monitor_loop e (Some buf # lines) s
        = (if r < 0 then Some (Terminated, lines, s1) else monitor_loop e lines s1)) \<and>
   monitor_loop e [] s = Some (AwaitingLine, [], cprintf Prompt s) \<and>
   (monitor_loop e lines s = Some (Terminated, rest, s') \<longrightarrow>
      (\<exists>before b s0 r'. lines = before @ Some b # rest \<and>
         runcmd e b (cprintf Prompt s0) = Some (Return r', s') \<and> r' < 0))"
  using monitor_loop_terminated [of e lines s rest s'] by auto

theorem monitor_loop_transitions_witness:
  "monitor_loop (jos (numbers []) (\<lambda>a. None) 0) [None, Some ''c'', Some ''help''] boot
     = Some (Terminated, [Some ''help''], boot\<lparr>console := [Prompt, Prompt, InvalidTrapframe]\<rparr>) \<and>
   (\<exists>before b s0 r'. [None, Some ''c'', Some ''help''] = before @ Some b # [Some ''help''] \<and>
      runcmd (jos (numbers []) (\<lambda>a. None) 0) b (cprintf Prompt s0)
        = Some (Return r', boot\<lparr>console := [Prompt, Prompt, InvalidTrapframe]\<rparr>) \<and> r' < 0)"
proof -
  let ?e = "jos (numbers []) (\<lambda>a. None) 0"
  let ?s = "boot\<lparr>console := [Prompt, Prompt, InvalidTrapframe]\<rparr>"
  have n: "length ([] :: string list) < MAXARGS - 1"
    by (simp add: MAXARGS_def)
  have r: "runcmd ?e ''c'' (cprintf Prompt (cprintf Prompt boot)) = Some (Return (- 1), ?s)"
    using runcmd_tokens [OF tokens_of_examples(1) n, of ?e "cprintf Prompt (cprintf Prompt boot)"]
    by (simp add: lookup_commands mon_c_def cprintf_def boot_def)
  have 1: "monitor_loop ?e [None, Some ''c'', Some ''help''] boot = Some (Terminated, [Some ''help''], ?s)"
    using monitor_loop_transitions [of ?e "[Some ''c'', Some ''help'']" boot]
      monitor_loop_transitions [of ?e "[Some ''help'']" "cprintf Prompt boot" "''c''" "- 1" ?s] r
    by simp
  from monitor_loop_transitions [of ?e "[None, Some ''c'', Some ''help'']" boot _ _ _ "[Some ''help'']" ?s] 1
  show ?thesis by simp
qed

subsection \<open>map on an inverted or empty range\<close>

lemma ceil_step: "0 < d \<Longrightarrow> (d + 4095) div 4096 = Suc ((d - 4096 + 4095) div (4096 :: nat))"
proof (cases "4096 \<le> d")
  case True
  then have "d + 4095 = (d - 4096 + 4095) + 1 * 4096" by simp
  then show ?thesis by simp
next
  case False
  assume "0 < d"
  with False have "(d + 4095) div 4096 = 1"
    by (simp add: div_nat_eqI)
  with False show ?thesis by simp
qed

lemma map_loop_step:
  assumes "i < end"
  shows "map_loop end i s = map_loop end (i + PGSIZE) (map_page s i)"
  using assms
  by (subst map_loop.simps) (simp add: pgdir_walk_resolves map_page_def Let_def)

lemma map_loop_pages:
  assumes "unat end \<le> 2 ^ 32 - 4096"
  shows "map_loop end i s = Some (Return 0, foldl map_page s (map_pages i end))"
proof (induction "page_count i end" arbitrary: i s)
  case 0
  then have "unat end - unat i = 0"
    by (simp add: page_count_def)
  then have "\<not> i < end"
    by (simp add: word_less_nat_alt)
  moreover have "map_pages i end = []"
    using 0 by (simp add: map_pages_def)
  ultimately show ?case
    by (subst map_loop.simps) simp
next
  case (Suc n)
  have lt: "i < end"
  proof (rule ccontr)
    assume "\<not> i < end"
    then have "unat end - unat i = 0" by (simp add: word_less_nat_alt)
    with Suc.hyps(2) show False by (simp add: page_count_def)
  qed
  then have u: "unat i < unat end" by (simp add: word_less_nat_alt)
  with assms have "unat i + unat PGSIZE < 2 ^ 32"
    by (simp add: PGSIZE_def)
  then have un: "unat (i + PGSIZE) = unat i + 4096"
    by (simp add: unat_add_lem [THEN iffD1] PGSIZE_def)
  have c: "page_count i end = Suc (page_count (i + PGSIZE) end)"
    using ceil_step [of "unat end - unat i"] u by (simp add: page_count_def un)
  with Suc.hyps(2) have n: "n = page_count (i + PGSIZE) end" by simp
  have "map_pages i end = i # map_pages (i + PGSIZE) end"
    by (simp add: map_pages_def c upt_conv_Cons map_Suc_upt [symmetric] algebra_simps del: upt_Suc)
  then show ?case
    using Suc.hyps(1) [OF n, of "map_page s i"] by (simp add: map_loop_step [OF lt])
qed

lemma map_pages_range:
  assumes "p \<in> set (map_pages pg end)"
  shows "pg \<le> p \<and> p < end"
proof -
  from assms obtain j where j: "j < page_count pg end" and p: "p = pg + PGSIZE * of_nat j"
    by (auto simp: map_pages_def)
  from j have "4096 * j < unat end - unat pg"
    by (simp add: page_count_def) 
  then have b: "unat pg + 4096 * j < unat end" by simp
  have "unat end < 2 ^ 32" using unsigned_less [of "end"] by simp
  with b have s: "4096 * j < 2 ^ 32" "unat pg + 4096 * j < 2 ^ 32" by simp_all
  have "unat (PGSIZE * of_nat j) = 4096 * j"
    using s(1) by (simp add: PGSIZE_def unat_word_ariths unat_of_nat)
  moreover from this have "unat (pg + PGSIZE * of_nat j) = unat pg + 4096 * j"
    using s(2) by (simp add: unat_add_lem [THEN iffD1])
  ultimately show ?thesis
    using b by (simp add: p word_less_nat_alt word_le_nat_alt)
qed

text \<open>
  C6. When \<open>start > end\<close>, \<open>map\<close> reports the error, returns 0 (the loop continues) and
  leaves the page table as it was; when \<open>start = end\<close> is page-aligned, nothing is printed
  and no entry is created. The reason is the range of the loop: for \<open>start \<le> end\<close> (and
  \<open>end\<close> up to 0xFFFFF000, so that the page address does not wrap around) \<open>map\<close> resolves
  and prints exactly the pages from the rounded-down start in steps of the page size
  that lie below \<open>end\<close>, each of them in the range from the rounded-down start to \<open>end\<close>.
\<close>

theorem mon_map_inverted_or_empty:
  assumes "strtol_arg e argv 1 = Inr start" and "strtol_arg e argv 2 = Inr end"
  shows "(end < start \<longrightarrow>
           mon_map e argc argv s = Some (Return 0, cprintf (MapInvalid start end) s) \<and>
           pgtab (cprintf (MapInvalid start end) s) = pgtab s) \<and>
         (start = end \<and> start mod PGSIZE = 0 \<longrightarrow> mon_map e argc argv s = Some (Return 0, s)) \<and>
         (start \<le> end \<and> end \<le> 0xFFFFF000 \<longrightarrow>
            mon_map e argc argv s
              = Some (Return 0, foldl map_page s (map_pages (ROUNDDOWN start PGSIZE) end)) \<and>
            (\<forall>p \<in> set (map_pages (ROUNDDOWN start PGSIZE) end).
               ROUNDDOWN start PGSIZE \<le> p \<and> p < end))"
proof (intro conjI impI)
  assume "end < start"
  then show "mon_map e argc argv s = Some (Return 0, cprintf (MapInvalid start end) s)"
    using assms by (simp add: mon_map_def)
next
  show "pgtab (cprintf (MapInvalid start end) s) = pgtab s"
    by (simp add: cprintf_def)
next
  assume a: "start = end \<and> start mod PGSIZE = 0"
  then have r: "ROUNDDOWN start PGSIZE = end" and eq: "start = end"
    by (auto simp: ROUNDDOWN_def)
  have "map_loop end end s = Some (Return 0, s)"
    by (subst map_loop.simps) simp
  with r eq show "mon_map e argc argv s = Some (Return 0, s)"
    using assms by (simp add: mon_map_def)
next
  assume a: "start \<le> end \<and> end \<le> 0xFFFFF000"
  then have "unat end \<le> 2 ^ 32 - 4096"
    by (simp add: word_le_nat_alt)
  from map_loop_pages [OF this, of "ROUNDDOWN start PGSIZE" s]
  show "mon_map e argc argv s
      = Some (Return 0, foldl map_page s (map_pages (ROUNDDOWN start PGSIZE) end))"
    using assms a by (simp add: mon_map_def not_less [symmetric])
next
  show "\<forall>p \<in> set (map_pages (ROUNDDOWN start PGSIZE) end). ROUNDDOWN start PGSIZE \<le> p \<and> p < end"
    using map_pages_range by blast
qed

theorem mon_map_inverted_or_empty_witness:
  "runcmd (jos (numbers [(''0x1000'', 0x1000), (''0x2000'', 0x2000)]) (\<lambda>a. None) 0)
       ''map 0x2000 0x1000'' boot
     = Some (Return 0, boot\<lparr>console := [MapInvalid 0x2000 0x1000]\<rparr>) \<and>
   runcmd (jos (numbers [(''0x1000'', 0x1000), (''0x2000'', 0x2000)]) (\<lambda>a. None) 0)
       ''map 0x1000 0x1000'' boot
     = Some (Return 0, boot) \<and>
   runcmd (jos (numbers [(''0x1234'', 0x1234), (''0x3000'', 0x3000)]) (\<lambda>a. None) 0)
       ''map 0x1234 0x3000'' boot
     = Some (Return 0,
         boot\<lparr>pgtab := [1 \<mapsto> 0, 2 \<mapsto> 0],
              console := [PageRow 1 2 ''---------'' 0, PageRow 2 3 ''---------'' 0]\<rparr>)"
proof -
  let ?e = "jos (numbers [(''0x1000'', 0x1000), (''0x2000'', 0x2000)]) (\<lambda>a. None) 0"
  let ?f = "jos (numbers [(''0x1234'', 0x1234), (''0x3000'', 0x3000)]) (\<lambda>a. None) 0"
  have v: "strtol ?e ''0x2000'' = 0x2000" "strtol ?e ''0x1000'' = 0x1000"
    "strtol ?f ''0x1234'' = 0x1234" "strtol ?f ''0x3000'' = 0x3000"
    by (simp_all add: jos_def numbers_def)
  have a: "strtol_arg ?e (argv_of [''map'', ''0x2000'', ''0x1000'']) 1 = Inr 0x2000"
    "strtol_arg ?e (argv_of [''map'', ''0x2000'', ''0x1000'']) 2 = Inr 0x1000"
    "strtol_arg ?e (argv_of [''map'', ''0x1000'', ''0x1000'']) 1 = Inr 0x1000"
    "strtol_arg ?e (argv_of [''map'', ''0x1000'', ''0x1000'']) 2 = Inr 0x1000"
    "strtol_arg ?f (argv_of [''map'', ''0x1234'', ''0x3000'']) 1 = Inr 0x1234"
    "strtol_arg ?f (argv_of [''map'', ''0x1234'', ''0x3000'']) 2 = Inr 0x3000"
    by (simp_all add: strtol_arg_argv_of v)
  have m1: "mon_map ?e 3 (argv_of [''map'', ''0x2000'', ''0x1000'']) boot
      = Some (Return 0, cprintf (MapInvalid 0x2000 0x1000) boot)"
    using mon_map_inverted_or_empty [OF a(1) a(2), of 3 boot] by simp
  have m2: "mon_map ?e 3 (argv_of [''map'', ''0x1000'', ''0x1000'']) boot = Some (Return 0, boot)"
    using mon_map_inverted_or_empty [OF a(3) a(4), of 3 boot] by (simp add: PGSIZE_def)
  have pages: "map_pages (ROUNDDOWN 0x1234 PGSIZE) 0x3000 = [0x1000, 0x2000]"
    by (simp add: map_pages_def page_count_def ROUNDDOWN_def PGSIZE_def upt_rec)
  have m3: "mon_map ?f 3 (argv_of [''map'', ''0x1234'', ''0x3000'']) boot
      = Some (Return 0, foldl map_page boot [0x1000, 0x2000])"
    using mon_map_inverted_or_empty [OF a(5) a(6), of 3 boot] by (simp add: pages)
  show ?thesis
    unfolding runcmd3 [OF tokens_of_examples(6)] runcmd3 [OF tokens_of_examples(7)]
      runcmd3 [OF tokens_of_examples2(7)] lookup_commands m1 m2 m3
    by (simp add: cprintf_def boot_def map_page_def resolved_entry_def pte_defs Let_def)
qed

end
